theory Spec2Isabelle
  imports Complex_Main "HOL-Library.Multiset"
begin

section \<open>JavaScript primitives used by the expense tracker\<close>

text \<open>
  Text is modelled as \<open>string\<close> (a list of 8-bit characters); the intended domain is
  ASCII text.  Numbers of the source are IEEE doubles.  Identifiers are integers, and
  the one sum computed on them, the maximum plus one, is rounded as a double rounds it.
  Amounts are exact rationals: the range of a double (overflow to an infinity, underflow
  to zero) is modelled, the rounding of their significand to 53 bits is not.
\<close>

datatype jsnum = NaN | NegInf | Fin rat | PosInf

text \<open>A numeric field as \<open>JSON.stringify\<close> persists it: a finite number, or \<open>null\<close> for
  a value that is not finite.\<close>

datatype jsonnum = Null | Num rat

definition toJson :: "jsnum \<Rightarrow> jsonnum" where
  "toJson v = (case v of Fin r \<Rightarrow> Num r | _ \<Rightarrow> Null)"

text \<open>The numeric value of a persisted field in an addition (\<open>sum + null\<close> is \<open>sum\<close>).\<close>

definition numOf :: "jsonnum \<Rightarrow> rat" where
  "numOf v = (case v of Null \<Rightarrow> 0 | Num r \<Rightarrow> r)"

definition maxDouble :: rat where
  "maxDouble = 2 ^ 1024 - 2 ^ 970"

definition minDouble :: rat where
  "minDouble = 1 / 2 ^ 1075"

definition toDouble :: "rat \<Rightarrow> jsnum" where
  "toDouble x =
     (if maxDouble \<le> x then PosInf
      else if x \<le> - maxDouble then NegInf
      else if \<bar>x\<bar> \<le> minDouble then Fin 0
      else Fin x)"

definition isWhiteSpace :: "char \<Rightarrow> bool" where
  "isWhiteSpace c \<longleftrightarrow> (of_char c :: nat) \<in> {9, 10, 11, 12, 13, 32}"

definition trimStart :: "string \<Rightarrow> string" where
  "trimStart s = dropWhile isWhiteSpace s"

definition trim :: "string \<Rightarrow> string" where
  "trim s = rev (dropWhile isWhiteSpace (rev (dropWhile isWhiteSpace s)))"

text \<open>\<open>toLowerCase\<close> on ASCII text: the capital letters map to the small ones, every
  other character to itself.\<close>

definition lowerChar :: "char \<Rightarrow> char" where
  "lowerChar c =
     (case map_of (zip ''ABCDEFGHIJKLMNOPQRSTUVWXYZ'' ''abcdefghijklmnopqrstuvwxyz'') c of
        None \<Rightarrow> c
      | Some l \<Rightarrow> l)"

definition toLowerCase :: "string \<Rightarrow> string" where
  "toLowerCase s = map lowerChar s"

definition padEnd :: "nat \<Rightarrow> string \<Rightarrow> string" where
  "padEnd n s = s @ replicate (n - length s) (CHR '' '')"

definition digitVal :: "char \<Rightarrow> nat option" where
  "digitVal c =
     (let n = (of_char c :: nat) in
      if 48 \<le> n \<and> n \<le> 57 then Some (n - 48)
      else if 97 \<le> n \<and> n \<le> 102 then Some (n - 87)
      else if 65 \<le> n \<and> n \<le> 70 then Some (n - 55)
      else None)"

definition isDigitIn :: "nat \<Rightarrow> char \<Rightarrow> bool" where
  "isDigitIn radix c = (case digitVal c of None \<Rightarrow> False | Some d \<Rightarrow> d < radix)"

definition digitsValue :: "nat \<Rightarrow> string \<Rightarrow> nat" where
  "digitsValue radix ds = foldl (\<lambda>acc c. acc * radix + (case digitVal c of None \<Rightarrow> 0 | Some d \<Rightarrow> d)) 0 ds"

text \<open>An optional sign in front of a numeral: whether it is negative, and the rest.\<close>

definition stripSign :: "string \<Rightarrow> bool \<times> string" where
  "stripSign s =
     (case s of
        [] \<Rightarrow> (False, [])
      | c # cs \<Rightarrow> if c = CHR ''-'' then (True, cs)
                 else if c = CHR ''+'' then (False, cs)
                 else (False, s))"

definition signed :: "bool \<Rightarrow> rat \<Rightarrow> rat" where
  "signed neg x = (if neg then - x else x)"

text \<open>\<open>Number.parseInt(s)\<close> with no radix: leading white space, a sign, the prefix
  \<open>0x\<close> for base sixteen, then the longest run of digits; \<open>NaN\<close> when that run is empty.\<close>

definition parseInt :: "string \<Rightarrow> jsnum" where
  "parseInt s =
     (let (neg, u) = stripSign (trimStart s);
          hex = (take 2 u = ''0x'' \<or> take 2 u = ''0X'');
          radix = (if hex then 16 else 10);
          ds = takeWhile (isDigitIn radix) (if hex then drop 2 u else u)
      in if ds = [] then NaN
         else toDouble (signed neg (of_nat (digitsValue radix ds))))"

definition scale10 :: "rat \<Rightarrow> int \<Rightarrow> rat" where
  "scale10 m e = (if 0 \<le> e then m * 10 ^ nat e else m / 10 ^ nat (- e))"

text \<open>The exponent part of a decimal literal: \<open>e\<close> or \<open>E\<close>, an optional sign and at
  least one digit; anything else is no exponent.\<close>

definition exponentPart :: "string \<Rightarrow> int" where
  "exponentPart s =
     (case s of
        [] \<Rightarrow> 0
      | c # cs \<Rightarrow>
          if c = CHR ''e'' \<or> c = CHR ''E'' then
            (let (neg, t) = stripSign cs; ds = takeWhile (isDigitIn 10) t
             in if ds = [] then 0
                else (if neg then - int (digitsValue 10 ds) else int (digitsValue 10 ds)))
          else 0)"

text \<open>\<open>Number.parseFloat(s)\<close>: leading white space, a sign, then \<open>Infinity\<close> or the
  longest prefix that is a decimal literal; \<open>NaN\<close> when there is none.\<close>

definition parseFloat :: "string \<Rightarrow> jsnum" where
  "parseFloat s =
     (let (neg, u) = stripSign (trimStart s) in
      if take 8 u = ''Infinity'' then (if neg then NegInf else PosInf)
      else
        let ip = takeWhile (isDigitIn 10) u;
            r1 = dropWhile (isDigitIn 10) u;
            dot = (r1 \<noteq> [] \<and> hd r1 = CHR ''.'');
            fp = (if dot then takeWhile (isDigitIn 10) (tl r1) else []);
            r2 = (if dot then dropWhile (isDigitIn 10) (tl r1) else r1)
        in if ip = [] \<and> fp = [] then NaN
           else toDouble (signed neg
                  (scale10 (of_nat (digitsValue 10 (ip @ fp)))
                     (exponentPart r2 - int (length fp)))))"

definition isNaN :: "jsnum \<Rightarrow> bool" where
  "isNaN v \<longleftrightarrow> v = NaN"

text \<open>The comparison \<open>v <= r\<close> of a number with a finite constant (false for \<open>NaN\<close>).\<close>

definition jsLe :: "jsnum \<Rightarrow> rat \<Rightarrow> bool" where
  "jsLe v r = (case v of NaN \<Rightarrow> False | NegInf \<Rightarrow> True | Fin x \<Rightarrow> x \<le> r | PosInf \<Rightarrow> False)"

definition jsLt :: "jsnum \<Rightarrow> rat \<Rightarrow> bool" where
  "jsLt v r = (case v of NaN \<Rightarrow> False | NegInf \<Rightarrow> True | Fin x \<Rightarrow> x < r | PosInf \<Rightarrow> False)"

definition jsGt :: "jsnum \<Rightarrow> rat \<Rightarrow> bool" where
  "jsGt v r = (case v of NaN \<Rightarrow> False | NegInf \<Rightarrow> False | Fin x \<Rightarrow> r < x | PosInf \<Rightarrow> True)"


definition digitChar :: "nat \<Rightarrow> char" where
  "digitChar n = ''0123456789'' ! (n mod 10)"

fun showNat :: "nat \<Rightarrow> string" where
  "showNat n =
     (if n < 10 then [digitChar n]
      else showNat (n div 10) @ [digitChar (n mod 10)])"

declare showNat.simps [simp del]

text \<open>An integer in a template string or through \<open>toString()\<close>: plain decimal.\<close>

definition showInt :: "int \<Rightarrow> string" where
  "showInt i = (if i < 0 then CHR ''-'' # showNat (nat (- i)) else showNat (nat i))"

fun indexOf :: "'a list \<Rightarrow> 'a \<Rightarrow> int" where
  "indexOf [] x = - 1"
| "indexOf (y # ys) x =
     (if y = x then 0 else (let i = indexOf ys x in if i = - 1 then - 1 else i + 1))"

text \<open>\<open>Array.prototype.findIndex\<close>, with \<open>None\<close> for the source's \<open>-1\<close>.\<close>

fun findIndex :: "('a \<Rightarrow> bool) \<Rightarrow> 'a list \<Rightarrow> nat option" where
  "findIndex P [] = None"
| "findIndex P (x # xs) =
     (if P x then Some 0 else map_option Suc (findIndex P xs))"

text \<open>What a test such as \<open>if (description)\<close> or \<open>!id\<close> sees in the result of
  \<open>getArgValue\<close>: \<open>null\<close> and the empty string are falsy, every other string is truthy.\<close>

definition truthy :: "string option \<Rightarrow> bool" where
  "truthy v = (case v of None \<Rightarrow> False | Some s \<Rightarrow> s \<noteq> [])"

text \<open>The text of an argument that a truthiness test has let through.\<close>

definition argText :: "string option \<Rightarrow> string" where
  "argText v = (case v of None \<Rightarrow> [] | Some s \<Rightarrow> s)"

text \<open>\<open>v || d\<close> on the result of \<open>getArgValue\<close>.\<close>

definition orElse :: "string option \<Rightarrow> string \<Rightarrow> string" where
  "orElse v d = (case v of None \<Rightarrow> d | Some s \<Rightarrow> if s = [] then d else s)"

section \<open>Data model\<close>

text \<open>An expense record; \<open>ident\<close> is the field \<open>id\<close> of the source (\<open>id\<close> is the identity
  function of HOL).\<close>

record expense =
  ident :: int
  date :: string
  description :: string
  amount :: jsonnum
  category :: string

text \<open>The error kinds of the specification; \<open>MissingArgument\<close> carries the message of
  the source, \<open>NotFound\<close> the identifier as it was given.\<close>

datatype error =
    MissingArgument string
  | InvalidAmount
  | InvalidMonth
  | NotFound string

definition errorMessage :: "error \<Rightarrow> string" where
  "errorMessage e =
     (case e of
        MissingArgument m \<Rightarrow> m
      | InvalidAmount \<Rightarrow> ''Amount must be a positive number''
      | InvalidMonth \<Rightarrow> ''Month must be a number between 1 and 12''
      | NotFound i \<Rightarrow> ''Expense with ID '' @ i @ '' not found'')"

datatype outcome = Done | Thrown error

text \<open>What one invocation reads from its environment: the calendar date of
  \<open>new Date().toISOString()\<close> (a UTC date), the local year of \<open>new Date().getFullYear()\<close>,
  the offset of local time from UTC in minutes (between \<open>-1440\<close> and \<open>1440\<close>,
  exclusive), and the conversion of a finite number to text, which the model takes as
  given.\<close>

record env =
  today :: string
  currentYear :: int
  tzOffset :: int
  numToString :: "rat \<Rightarrow> string"

text \<open>The persisted state and the output: \<open>expenses.json\<close> (the empty list when the
  file is absent), \<open>budgets.json\<close> (no entry when absent), the files written by the
  export (the newest first) and the lines printed on standard output.\<close>

record world =
  expensesFile :: "expense list"
  budgetsFile :: "string \<rightharpoonup> jsonnum"
  writtenFiles :: "(string \<times> string) list"
  stdout :: "string list"

definition loadExpenses :: "world \<Rightarrow> expense list" where
  "loadExpenses w = expensesFile w"

definition saveExpenses :: "expense list \<Rightarrow> world \<Rightarrow> world" where
  "saveExpenses expenses w = w\<lparr>expensesFile := expenses\<rparr>"

definition consoleLog :: "string \<Rightarrow> world \<Rightarrow> world" where
  "consoleLog line w = w\<lparr>stdout := stdout w @ [line]\<rparr>"

section \<open>Utility functions\<close>

text \<open>The sum of two integers held in doubles is the exact sum rounded to the nearest
  double, a tie going to the even significand.  Below \<open>2^53\<close> in magnitude every integer
  is a double; from there on the doubles are the multiples of a power of two, the unit
  of the binade.\<close>

fun log2floor :: "nat \<Rightarrow> nat" where
  "log2floor n = (if n < 2 then 0 else Suc (log2floor (n div 2)))"

declare log2floor.simps [simp del]

definition ulp :: "int \<Rightarrow> int" where
  "ulp m = (if \<bar>m\<bar> < 2 ^ 53 then 1 else 2 ^ (log2floor (nat \<bar>m\<bar>) - 52))"

definition roundToDouble :: "int \<Rightarrow> int" where
  "roundToDouble m =
     (let u = ulp m; q = m div u; r = m mod u in
      if 2 * r < u then q * u
      else if u < 2 * r then (q + 1) * u
      else if even q then q * u else (q + 1) * u)"

text \<open>\<open>n + 1\<close> on an integer held in a double.\<close>

definition plusOne :: "int \<Rightarrow> int" where
  "plusOne n = roundToDouble (n + 1)"

definition getNextId :: "expense list \<Rightarrow> int" where
  "getNextId expenses =
     (case expenses of
        [] \<Rightarrow> 1
      | e # es \<Rightarrow> plusOne (foldl max (ident e) (map ident es)))"

definition showJson :: "env \<Rightarrow> jsonnum \<Rightarrow> string" where
  "showJson ev a = (case a of Null \<Rightarrow> ''null'' | Num r \<Rightarrow> numToString ev r)"

definition showNum :: "env \<Rightarrow> jsnum \<Rightarrow> string" where
  "showNum ev v =
     (case v of NaN \<Rightarrow> ''NaN'' | NegInf \<Rightarrow> ''-Infinity''
      | Fin r \<Rightarrow> numToString ev r | PosInf \<Rightarrow> ''Infinity'')"

definition formatCurrency :: "env \<Rightarrow> jsonnum \<Rightarrow> string" where
  "formatCurrency ev a = ''$'' @ showJson ev a"

definition validateAmount :: "string \<Rightarrow> error + jsnum" where
  "validateAmount a =
     (let num = parseFloat a in
      if isNaN num \<or> jsLe num 0 then Inl InvalidAmount else Inr num)"

text \<open>The test \<open>e.id === Number.parseInt(id)\<close>.\<close>

definition idMatches :: "string \<Rightarrow> expense \<Rightarrow> bool" where
  "idMatches i e \<longleftrightarrow> Fin (of_int (ident e)) = parseInt i"

text \<open>The source returns a reference to the record found, which the caller then
  mutates inside the list; the model returns its position.\<close>

definition findExpenseById :: "expense list \<Rightarrow> string \<Rightarrow> error + nat" where
  "findExpenseById expenses i =
     (case findIndex (idMatches i) expenses of
        None \<Rightarrow> Inl (NotFound i)
      | Some k \<Rightarrow> Inr k)"

definition getArgValue :: "string list \<Rightarrow> string \<Rightarrow> string option" where
  "getArgValue args flag =
     (let index = indexOf args flag in
      if index \<noteq> - 1 \<and> index + 1 < int (length args)
      then Some (args ! nat (index + 1)) else None)"

section \<open>Command implementations\<close>

definition addExpense :: "env \<Rightarrow> string list \<Rightarrow> world \<Rightarrow> outcome \<times> world" where
  "addExpense ev args w =
     (let expenses = loadExpenses w;
          descriptionArg = getArgValue args ''--description'';
          amountArg = getArgValue args ''--amount'';
          categoryArg = orElse (getArgValue args ''--category'') ''General''
      in if \<not> truthy descriptionArg then
           (Thrown (MissingArgument ''Description is required (--description)''), w)
         else if \<not> truthy amountArg then
           (Thrown (MissingArgument ''Amount is required (--amount)''), w)
         else
           case validateAmount (argText amountArg) of
             Inl err \<Rightarrow> (Thrown err, w)
           | Inr validatedAmount \<Rightarrow>
               let e = \<lparr>ident = getNextId expenses,
                        date = today ev,
                        description = trim (argText descriptionArg),
                        amount = toJson validatedAmount,
                        category = trim categoryArg\<rparr>
               in (Done,
                   consoleLog (''Expense added successfully (ID: '' @ showInt (ident e) @ '')'')
                     (saveExpenses (expenses @ [e]) w)))"

definition updateExpense :: "env \<Rightarrow> string list \<Rightarrow> world \<Rightarrow> outcome \<times> world" where
  "updateExpense ev args w =
     (let expenses = loadExpenses w;
          idArg = getArgValue args ''--id'';
          descriptionArg = getArgValue args ''--description'';
          amountArg = getArgValue args ''--amount'';
          categoryArg = getArgValue args ''--category''
      in if \<not> truthy idArg then
           (Thrown (MissingArgument ''Expense ID is required (--id)''), w)
         else
           case findExpenseById expenses (argText idArg) of
             Inl err \<Rightarrow> (Thrown err, w)
           | Inr k \<Rightarrow>
               let e0 = expenses ! k;
                   e1 = (if truthy descriptionArg
                         then e0\<lparr>description := trim (argText descriptionArg)\<rparr> else e0)
               in case (if truthy amountArg
                        then map_sum id (\<lambda>v. e1\<lparr>amount := toJson v\<rparr>)
                               (validateAmount (argText amountArg))
                        else Inr e1) of
                    Inl err \<Rightarrow> (Thrown err, w)
                  | Inr e2 \<Rightarrow>
                      let e3 = (if truthy categoryArg
                                then e2\<lparr>category := trim (argText categoryArg)\<rparr> else e2)
                      in (Done,
                          consoleLog (''Expense updated successfully (ID: '' @ argText idArg @ '')'')
                            (saveExpenses (expenses[k := e3]) w)))"

definition deleteExpense :: "env \<Rightarrow> string list \<Rightarrow> world \<Rightarrow> outcome \<times> world" where
  "deleteExpense ev args w =
     (let expenses = loadExpenses w;
          idArg = getArgValue args ''--id''
      in if \<not> truthy idArg then
           (Thrown (MissingArgument ''Expense ID is required (--id)''), w)
         else
           case findIndex (idMatches (argText idArg)) expenses of
             None \<Rightarrow> (Thrown (NotFound (argText idArg)), w)
           | Some index \<Rightarrow>
               (Done,
                consoleLog ''Expense deleted successfully''
                  (saveExpenses (take index expenses @ drop (Suc index) expenses) w)))"

definition listHeader :: "string list" where
  "listHeader =
     [''ID  Date       Description                Amount    Category'',
      ''--  ---------- -------------------------- --------- ----------'']"

definition listRow :: "env \<Rightarrow> expense \<Rightarrow> string" where
  "listRow ev e =
     padEnd 2 (showInt (ident e)) @ ''  '' @ padEnd 10 (date e) @ '' '' @
     padEnd 26 (description e) @ '' '' @ padEnd 9 (formatCurrency ev (amount e)) @ '' '' @
     category e"

definition categoryIs :: "string \<Rightarrow> expense \<Rightarrow> bool" where
  "categoryIs c e \<longleftrightarrow> toLowerCase (category e) = toLowerCase c"

definition listExpenses :: "env \<Rightarrow> string list \<Rightarrow> world \<Rightarrow> outcome \<times> world" where
  "listExpenses ev args w =
     (let expenses = loadExpenses w;
          categoryArg = getArgValue args ''--category'';
          filteredExpenses =
            (if truthy categoryArg then filter (categoryIs (argText categoryArg)) expenses
             else expenses)
      in if length filteredExpenses = 0 then (Done, consoleLog ''No expenses found'' w)
         else (Done, w\<lparr>stdout := stdout w @ listHeader @ map (listRow ev) filteredExpenses\<rparr>))"


section \<open>Dates\<close>

definition leapYear :: "int \<Rightarrow> bool" where
  "leapYear y \<longleftrightarrow> (y mod 4 = 0 \<and> y mod 100 \<noteq> 0) \<or> y mod 400 = 0"

definition daysInMonth :: "int \<Rightarrow> nat \<Rightarrow> nat" where
  "daysInMonth y m =
     (if m = 2 then (if leapYear y then 29 else 28)
      else if m = 4 \<or> m = 6 \<or> m = 9 \<or> m = 11 then 30 else 31)"

text \<open>\<open>new Date(s)\<close> on the calendar-date form \<open>YYYY-MM-DD\<close>, the only form
  \<open>formatDate\<close> writes: the year, month and day of a valid date, read as midnight UTC.
  Every other text is an invalid date in the model.\<close>

definition isoDate :: "string \<Rightarrow> (int \<times> nat \<times> nat) option" where
  "isoDate s =
     (if length s = 10 \<and> s ! 4 = CHR ''-'' \<and> s ! 7 = CHR ''-'' \<and>
         list_all (isDigitIn 10) (take 4 s) \<and>
         list_all (isDigitIn 10) (take 2 (drop 5 s)) \<and>
         list_all (isDigitIn 10) (drop 8 s)
      then
        (let y = int (digitsValue 10 (take 4 s));
             m = digitsValue 10 (take 2 (drop 5 s));
             d = digitsValue 10 (drop 8 s)
         in if 1 \<le> m \<and> m \<le> 12 \<and> 1 \<le> d \<and> d \<le> daysInMonth y m
            then Some (y, m, d) else None)
      else None)"

text \<open>\<open>getFullYear()\<close> and \<open>getMonth() + 1\<close> of that date.  Both read local time:
  where local time is behind UTC, midnight UTC is the evening of the day before.\<close>

definition localYearMonth :: "env \<Rightarrow> string \<Rightarrow> (int \<times> nat) option" where
  "localYearMonth ev s =
     (case isoDate s of
        None \<Rightarrow> None
      | Some (y, m, d) \<Rightarrow>
          if tzOffset ev < 0 \<and> d = 1
          then (if m = 1 then Some (y - 1, 12) else Some (y, m - 1))
          else Some (y, m))"

definition inMonth :: "env \<Rightarrow> nat \<Rightarrow> expense \<Rightarrow> bool" where
  "inMonth ev monthNum e \<longleftrightarrow> localYearMonth ev (date e) = Some (currentYear ev, monthNum)"

definition monthNames :: "string list" where
  "monthNames =
     [''January'', ''February'', ''March'', ''April'', ''May'', ''June'', ''July'',
      ''August'', ''September'', ''October'', ''November'', ''December'']"

text \<open>The month test of the summary and of the budget: the number, or the error.\<close>

definition parseMonth :: "string \<Rightarrow> error + nat" where
  "parseMonth m =
     (let monthNum = parseInt m in
      if isNaN monthNum \<or> jsLt monthNum 1 \<or> jsGt monthNum 12 then Inl InvalidMonth
      else case monthNum of Fin r \<Rightarrow> Inr (nat \<lfloor>r\<rfloor>) | _ \<Rightarrow> Inl InvalidMonth)"

definition totalOf :: "expense list \<Rightarrow> rat" where
  "totalOf es = foldl (\<lambda>sum e. sum + numOf (amount e)) 0 es"

section \<open>The category breakdown\<close>

text \<open>The values held by the object \<open>categoryTotals\<close>: a number, or the text that
  \<open>+\<close> yields once an operand is not a number.\<close>

datatype jsval = VNum rat | VStr string

text \<open>The object starts as \<open>{}\<close>, so a category named like a property of
  \<open>Object.prototype\<close> reads that property: a function (or, for \<open>__proto__\<close>, the
  prototype object), given here by the text it converts to.\<close>

definition protoText :: "string \<Rightarrow> string option" where
  "protoText c =
     (if c = ''__proto__'' then Some ''[object Object]''
      else if c = ''constructor'' then Some ''function Object() { [native code] }''
      else if c \<in> set [''toString'', ''toLocaleString'', ''valueOf'', ''hasOwnProperty'',
                        ''isPrototypeOf'', ''propertyIsEnumerable'', ''__defineGetter__'',
                        ''__defineSetter__'', ''__lookupGetter__'', ''__lookupSetter__'']
      then Some (''function '' @ c @ ''() { [native code] }'')
      else None)"

text \<open>\<open>categoryTotals[c] || 0\<close>, the object being the list of its own properties in
  insertion order.\<close>

definition readTotal :: "(string \<times> jsval) list \<Rightarrow> string \<Rightarrow> jsval" where
  "readTotal tot c =
     (case map_of tot c of
        Some (VNum r) \<Rightarrow> VNum r
      | Some (VStr s) \<Rightarrow> if s = [] then VNum 0 else VStr s
      | None \<Rightarrow> (case protoText c of None \<Rightarrow> VNum 0 | Some t \<Rightarrow> VStr t))"

definition jsPlus :: "env \<Rightarrow> jsval \<Rightarrow> jsonnum \<Rightarrow> jsval" where
  "jsPlus ev v a =
     (case v of
        VNum r \<Rightarrow> VNum (r + numOf a)
      | VStr s \<Rightarrow> VStr (s @ showJson ev a))"

text \<open>\<open>categoryTotals[c] = v\<close>: a new own property goes last; the setter of
  \<open>__proto__\<close> ignores a value that is not an object.\<close>

definition writeTotal :: "(string \<times> jsval) list \<Rightarrow> string \<Rightarrow> jsval \<Rightarrow> (string \<times> jsval) list" where
  "writeTotal tot c v =
     (if c = ''__proto__'' then tot
      else if c \<in> fst ` set tot then map (\<lambda>(k, u). if k = c then (k, v) else (k, u)) tot
      else tot @ [(c, v)])"

definition categoryTotals :: "env \<Rightarrow> expense list \<Rightarrow> (string \<times> jsval) list" where
  "categoryTotals ev es =
     foldl (\<lambda>tot e. writeTotal tot (category e) (jsPlus ev (readTotal tot (category e)) (amount e)))
       [] es"

text \<open>A key that is an array index (a canonical numeral below \<open>2^32 - 1\<close>) is
  enumerated before the other keys, in ascending order.\<close>

definition isArrayIndex :: "string \<Rightarrow> bool" where
  "isArrayIndex k \<longleftrightarrow>
     k \<noteq> [] \<and> list_all (isDigitIn 10) k \<and> (k = ''0'' \<or> hd k \<noteq> CHR ''0'') \<and>
     digitsValue 10 k < 2 ^ 32 - 1"

definition objectEntries :: "(string \<times> jsval) list \<Rightarrow> (string \<times> jsval) list" where
  "objectEntries tot =
     sort_key (\<lambda>(k, v). digitsValue 10 k) (filter (\<lambda>(k, v). isArrayIndex k) tot) @
     filter (\<lambda>(k, v). \<not> isArrayIndex k) tot"

text \<open>The comparator \<open>([, a], [, b]) => b - a\<close> is positive, and \<open>a\<close> goes after
  \<open>b\<close>, exactly when both are numbers and \<open>a < b\<close>; on a text the difference is
  \<open>NaN\<close>, which counts as zero.  \<open>Array.prototype.sort\<close> is stable; it is modelled as
  an insertion sort (with a comparator that is not consistent, which only a text among
  the values causes, ECMAScript leaves the order to the implementation).\<close>

definition goesAfter :: "jsval \<Rightarrow> jsval \<Rightarrow> bool" where
  "goesAfter a b = (case (a, b) of (VNum x, VNum y) \<Rightarrow> x < y | _ \<Rightarrow> False)"

fun insortDesc :: "string \<times> jsval \<Rightarrow> (string \<times> jsval) list \<Rightarrow> (string \<times> jsval) list" where
  "insortDesc x [] = [x]"
| "insortDesc x (y # ys) =
     (if goesAfter (snd x) (snd y) then y # insortDesc x ys else x # y # ys)"

definition sortDesc :: "(string \<times> jsval) list \<Rightarrow> (string \<times> jsval) list" where
  "sortDesc xs = foldr insortDesc xs []"

definition showVal :: "env \<Rightarrow> jsval \<Rightarrow> string" where
  "showVal ev v = (case v of VNum r \<Rightarrow> numToString ev r | VStr s \<Rightarrow> s)"

definition breakdown :: "env \<Rightarrow> expense list \<Rightarrow> (string \<times> jsval) list" where
  "breakdown ev es = sortDesc (objectEntries (categoryTotals ev es))"

definition breakdownLine :: "env \<Rightarrow> string \<times> jsval \<Rightarrow> string" where
  "breakdownLine ev kv = ''  '' @ fst kv @ '': $'' @ showVal ev (snd kv)"

definition showSummary :: "env \<Rightarrow> string list \<Rightarrow> world \<Rightarrow> outcome \<times> world" where
  "showSummary ev args w =
     (let expenses = loadExpenses w;
          monthArg = getArgValue args ''--month'';
          categoryArg = getArgValue args ''--category''
      in case (if truthy monthArg
               then map_sum id
                      (\<lambda>monthNum. (filter (inMonth ev monthNum) expenses,
                                   ''Total expenses for '' @ monthNames ! (monthNum - 1)))
                      (parseMonth (argText monthArg))
               else Inr (expenses, ''Total expenses'')) of
           Inl err \<Rightarrow> (Thrown err, w)
         | Inr (monthExpenses, monthLabel) \<Rightarrow>
             let filteredExpenses =
                   (if truthy categoryArg
                    then filter (categoryIs (argText categoryArg)) monthExpenses
                    else monthExpenses);
                 summaryLabel =
                   (if truthy categoryArg
                    then monthLabel @ '' ('' @ argText categoryArg @ '')''
                    else monthLabel);
                 total = totalOf filteredExpenses;
                 w1 = consoleLog (summaryLabel @ '': '' @ formatCurrency ev (Num total)) w
             in if \<not> truthy categoryArg \<and> length filteredExpenses > 0
                then (Done,
                      w1\<lparr>stdout := stdout w1 @
                           [[CHR 0x0A] @ ''Breakdown by category:''] @
                           map (breakdownLine ev) (breakdown ev filteredExpenses)\<rparr>)
                else (Done, w1))"

definition warningPrefix :: string where
  "warningPrefix =
     [CHR 0xE2, CHR 0x9A, CHR 0xA0, CHR 0xEF, CHR 0xB8, CHR 0x8F] @
     ''  WARNING: You have exceeded your budget by ''"

definition remainingPrefix :: string where
  "remainingPrefix = [CHR 0xF0, CHR 0x9F, CHR 0x92, CHR 0xB0] @ '' Remaining budget: ''"

definition setBudget :: "env \<Rightarrow> string list \<Rightarrow> world \<Rightarrow> outcome \<times> world" where
  "setBudget ev args w =
     (let monthArg = getArgValue args ''--month'';
          amountArg = getArgValue args ''--amount''
      in if \<not> truthy monthArg \<or> \<not> truthy amountArg then
           (Thrown (MissingArgument ''Both --month and --amount are required''), w)
         else
           case parseMonth (argText monthArg) of
             Inl err \<Rightarrow> (Thrown err, w)
           | Inr monthNum \<Rightarrow>
               (case validateAmount (argText amountArg) of
                  Inl err \<Rightarrow> (Thrown err, w)
                | Inr budgetAmount \<Rightarrow>
                    let key = showInt (currentYear ev) @ ''-'' @ showNat monthNum;
                        w1 = w\<lparr>budgetsFile := (budgetsFile w)(key \<mapsto> toJson budgetAmount)\<rparr>;
                        w2 = consoleLog (''Budget set for '' @ monthNames ! (monthNum - 1) @
                                         '': $'' @ showNum ev budgetAmount) w1;
                        currentSpending = totalOf (filter (inMonth ev monthNum) (loadExpenses w2))
                    in if jsLt budgetAmount currentSpending
                       then (Done,
                             consoleLog (warningPrefix @ ''$'' @
                               showNum ev (case budgetAmount of
                                             Fin b \<Rightarrow> Fin (currentSpending - b) | v \<Rightarrow> v)) w2)
                       else (Done,
                             consoleLog (remainingPrefix @ ''$'' @
                               showNum ev (case budgetAmount of
                                             Fin b \<Rightarrow> Fin (b - currentSpending) | v \<Rightarrow> v)) w2)))"

section \<open>Export\<close>

fun join :: "string \<Rightarrow> string list \<Rightarrow> string" where
  "join sep [] = []"
| "join sep [x] = x"
| "join sep (x # y # ys) = x @ sep @ join sep (y # ys)"

definition csvHeader :: string where
  "csvHeader = ''ID,Date,Description,Amount,Category'' @ [CHR 0x0A]"

definition csvRow :: "env \<Rightarrow> expense \<Rightarrow> string" where
  "csvRow ev e =
     showInt (ident e) @ '','' @ date e @ '','' @ [CHR 0x22] @ description e @ [CHR 0x22] @
     '','' @ showJson ev (amount e) @ '','' @ category e"

definition writeFile :: "string \<Rightarrow> string \<Rightarrow> world \<Rightarrow> world" where
  "writeFile name content w = w\<lparr>writtenFiles := (name, content) # writtenFiles w\<rparr>"

definition exportToCsv :: "env \<Rightarrow> string list \<Rightarrow> world \<Rightarrow> outcome \<times> world" where
  "exportToCsv ev args w =
     (let expenses = loadExpenses w;
          filename = orElse (getArgValue args ''--file'') ''expenses.csv''
      in if length expenses = 0 then (Done, consoleLog ''No expenses to export'' w)
         else
           let csvRows = join [CHR 0x0A] (map (csvRow ev) expenses);
               csvContent = csvHeader @ csvRows
           in (Done,
               consoleLog (''Expenses exported to '' @ filename)
                 (writeFile filename csvContent w)))"

section \<open>Runs and examples\<close>

text \<open>A sequence of \<open>add\<close> invocations, each with its own environment and argument
  list; an invocation that throws leaves the state as it was.\<close>

definition runAdds :: "(env \<times> string list) list \<Rightarrow> world \<Rightarrow> world" where
  "runAdds calls w = foldl (\<lambda>v c. snd (addExpense (fst c) (snd c) v)) w calls"

text \<open>The flags that the command handlers read.\<close>

definition flagNames :: "string list" where
  "flagNames =
     [''--description'', ''--amount'', ''--category'', ''--id'', ''--month'', ''--file'']"

text \<open>The pieces of a text between the occurrences of a separator character.\<close>

fun splitOn :: "char \<Rightarrow> string \<Rightarrow> string list" where
  "splitOn c [] = [[]]"
| "splitOn c (x # xs) =
     (if x = c then [] # splitOn c xs
      else (case splitOn c xs of [] \<Rightarrow> [[x]] | p # ps \<Rightarrow> (x # p) # ps))"

text \<open>For the statements about the breakdown: whether a subtotal is a number, and the
  number it is (a text is no number and counts as zero).\<close>

definition isNumber :: "jsval \<Rightarrow> bool" where
  "isNumber v = (case v of VNum r \<Rightarrow> True | VStr s \<Rightarrow> False)"

definition numberOf :: "jsval \<Rightarrow> rat" where
  "numberOf v = (case v of VNum r \<Rightarrow> r | VStr s \<Rightarrow> 0)"

text \<open>A date text that denotes a day of the given year and month.\<close>

definition datedIn :: "int \<Rightarrow> nat \<Rightarrow> expense \<Rightarrow> bool" where
  "datedIn y m e =
     (case isoDate (date e) of None \<Rightarrow> False | Some (y', m', d) \<Rightarrow> y' = y \<and> m' = m)"


text \<open>A number conversion for the examples: a finite decimal fraction as JavaScript
  prints it while it has at most fifteen significant digits.\<close>

fun fractionDigits :: "nat \<Rightarrow> rat \<Rightarrow> string" where
  "fractionDigits 0 r = []"
| "fractionDigits (Suc n) r =
     (if r = 0 then []
      else digitChar (nat \<lfloor>r * 10\<rfloor>) # fractionDigits n (r * 10 - of_int \<lfloor>r * 10\<rfloor>))"

definition decimalText :: "rat \<Rightarrow> string" where
  "decimalText r =
     (let a = \<bar>r\<bar>; f = a - of_int \<lfloor>a\<rfloor> in
      (if r < 0 then ''-'' else []) @ showNat (nat \<lfloor>a\<rfloor>) @
      (if f = 0 then [] else ''.'' @ fractionDigits 17 f))"

definition exampleEnv :: env where
  "exampleEnv =
     \<lparr>today = ''2024-08-15'', currentYear = 2024, tzOffset = 0, numToString = decimalText\<rparr>"

definition lunch :: expense where
  "lunch = \<lparr>ident = 1, date = ''2024-08-01'', description = ''Lunch'', amount = Num 20,
            category = ''Food''\<rparr>"

definition taxi :: expense where
  "taxi = \<lparr>ident = 2, date = ''2024-08-15'', description = ''Taxi'', amount = Num 30,
           category = ''Travel''\<rparr>"

definition emptyWorld :: world where
  "emptyWorld = \<lparr>expensesFile = [], budgetsFile = Map.empty, writtenFiles = [], stdout = []\<rparr>"

definition exampleWorld :: world where
  "exampleWorld = emptyWorld\<lparr>expensesFile := [lunch, taxi]\<rparr>"

definition rent :: expense where
  "rent = \<lparr>ident = 3, date = ''2024-09-01'', description = ''Rent'', amount = Num 900,
           category = ''Home''\<rparr>"

definition pen :: expense where
  "pen = \<lparr>ident = 1, date = ''2024-08-15'', description = ''Pen'', amount = Num 5,
          category = ''constructor''\<rparr>"

text \<open>The example environment on a machine whose local time is five hours behind UTC.\<close>

definition westEnv :: env where
  "westEnv = exampleEnv\<lparr>tzOffset := - 300\<rparr>"

text \<open>A record whose identifier is \<open>2^53\<close>, and a record that shares the identifier
  of \<open>lunch\<close>.\<close>

definition bulk :: expense where
  "bulk = \<lparr>ident = 9007199254740992, date = ''2024-08-02'', description = ''Bulk'',
           amount = Num 7, category = ''Food''\<rparr>"

definition snack :: expense where
  "snack = \<lparr>ident = 1, date = ''2024-08-03'', description = ''Snack'', amount = Num 3,
            category = ''Food''\<rparr>"

section \<open>Evaluation lemmas\<close>

lemma toDouble_moderate:
  assumes "1 / 1000000 \<le> \<bar>x\<bar>" and "\<bar>x\<bar> \<le> 1000000000"
  shows "toDouble x = Fin x"
proof -
  have m: "(1000000000::rat) < maxDouble" unfolding maxDouble_def by simp
  have n: "minDouble < (1 / 1000000::rat)" unfolding minDouble_def by simp
  show ?thesis using assms m n unfolding toDouble_def by auto
qed

lemma toDouble_zero: "toDouble 0 = Fin 0"
proof -
  have m: "(0::rat) < maxDouble" unfolding maxDouble_def by simp
  have n: "(0::rat) < minDouble" unfolding minDouble_def by simp
  show ?thesis using m n unfolding toDouble_def by auto
qed

lemmas js_eval =
  parseFloat_def parseInt_def stripSign_def trimStart_def isWhiteSpace_def isDigitIn_def
  digitVal_def digitsValue_def signed_def scale10_def exponentPart_def isNaN_def jsLe_def
  jsLt_def jsGt_def truthy_def orElse_def argText_def getArgValue_def trim_def toJson_def
  numOf_def validateAmount_def toDouble_moderate toDouble_zero Let_def

lemmas example_defs =
  exampleEnv_def exampleWorld_def emptyWorld_def lunch_def taxi_def loadExpenses_def
  saveExpenses_def consoleLog_def

section \<open>Identifiers assigned by add\<close>

lemma roundToDouble_exact: "\<bar>m\<bar> < 2 ^ 53 \<Longrightarrow> roundToDouble m = m"
  by (simp add: roundToDouble_def ulp_def)

lemma log2floor_unique: "2 ^ k \<le> n \<Longrightarrow> n < 2 ^ Suc k \<Longrightarrow> log2floor n = k"
proof (induction k arbitrary: n)
  case 0
  then have "n = 1" by simp
  then show ?case by (simp add: log2floor.simps)
next
  case (Suc k)
  then have a: "2 ^ k \<le> n div 2" and b: "n div 2 < 2 ^ Suc k" by auto
  have "(2::nat) \<le> 2 ^ Suc k" by simp
  then have "\<not> n < 2" using Suc.prems(1) by linarith
  then show ?case using Suc.IH [OF a b] by (subst log2floor.simps) simp
qed

lemma plusOne_exact: "- (2 ^ 53) \<le> n \<Longrightarrow> n + 1 < 2 ^ 53 \<Longrightarrow> plusOne n = n + 1"
  by (simp add: plusOne_def roundToDouble_exact)

lemma plusOne_limit: "plusOne 9007199254740992 = 9007199254740992"
proof -
  have "log2floor (nat \<bar>9007199254740993\<bar>) = 53"
    by (rule log2floor_unique) simp_all
  then have "ulp 9007199254740993 = 2"
    by (simp add: ulp_def)
  then show ?thesis
    by (simp add: plusOne_def roundToDouble_def)
qed

lemma foldl_max_Max: "foldl max (x::int) xs = Max (set (x # xs))"
proof (induction xs arbitrary: x)
  case Nil
  then show ?case by simp
next
  case (Cons a xs)
  show ?case
  proof (cases "set xs = {}")
    case True
    then show ?thesis by (simp add: max.commute)
  next
    case False
    then show ?thesis using Cons [of "max x a"] by (simp add: max.assoc)
  qed
qed

lemma getNextId_Nil: "getNextId [] = 1"
  by (simp add: getNextId_def)

lemma getNextId_plusOne: "es \<noteq> [] \<Longrightarrow> getNextId es = plusOne (Max (ident ` set es))"
  by (cases es) (simp_all add: getNextId_def foldl_max_Max)

text \<open>While the identifiers lie between \<open>- 2^53\<close> and a bound \<open>b\<close> with
  \<open>b + 1 < 2^53\<close>, the sum is exact.\<close>

lemma getNextId_Max:
  assumes "es \<noteq> []" and "\<forall>e\<in>set es. - (2 ^ 53) \<le> ident e \<and> ident e \<le> b"
    and "b + 1 < 2 ^ 53"
  shows "getNextId es = Max (ident ` set es) + 1"
proof -
  have "Max (ident ` set es) \<in> ident ` set es"
    using assms(1) by (intro Max_in) simp_all
  then have "- (2 ^ 53) \<le> Max (ident ` set es)" "Max (ident ` set es) \<le> b"
    using assms(2) by auto
  then have "plusOne (Max (ident ` set es)) = Max (ident ` set es) + 1"
    using assms(3) by (intro plusOne_exact) linarith+
  then show ?thesis
    using assms(1) by (simp add: getNextId_plusOne)
qed

lemma getNextId_greater:
  assumes "e \<in> set es" and "\<forall>e\<in>set es. - (2 ^ 53) \<le> ident e \<and> ident e \<le> b"
    and "b + 1 < 2 ^ 53"
  shows "ident e < getNextId es"
proof -
  from assms(1) have ne: "es \<noteq> []" by auto
  have "ident e \<le> Max (ident ` set es)" using assms(1) by simp
  then show ?thesis using getNextId_Max [OF ne assms(2,3)] by simp
qed

lemma getNextId_bounds:
  assumes "\<forall>e\<in>set es. - (2 ^ 53) \<le> ident e \<and> ident e \<le> b"
    and "0 \<le> b" and "b + 1 < 2 ^ 53"
  shows "- (2 ^ 53) \<le> getNextId es \<and> getNextId es \<le> b + 1"
proof (cases "es = []")
  case True
  then show ?thesis using assms(2) by (simp add: getNextId_Nil)
next
  case False
  have "Max (ident ` set es) \<in> ident ` set es"
    using False by (intro Max_in) simp_all
  then have "- (2 ^ 53) \<le> Max (ident ` set es)" "Max (ident ` set es) \<le> b"
    using assms(1) by auto
  then show ?thesis using getNextId_Max [OF False assms(1,3)] by simp
qed

lemma addExpense_Done:
  "fst (addExpense ev args w) = Done \<Longrightarrow>
   \<exists>e. expensesFile (snd (addExpense ev args w)) = expensesFile w @ [e] \<and>
       ident e = getNextId (expensesFile w)"
  by (auto simp: addExpense_def Let_def loadExpenses_def saveExpenses_def consoleLog_def
      split: if_splits sum.splits)

lemma addExpense_store:
  "expensesFile (snd (addExpense ev args w)) = expensesFile w \<or>
   (\<exists>e. expensesFile (snd (addExpense ev args w)) = expensesFile w @ [e] \<and>
       ident e = getNextId (expensesFile w))"
  by (auto simp: addExpense_def Let_def loadExpenses_def saveExpenses_def consoleLog_def
      split: if_splits sum.splits)

lemma runAdds_snoc:
  "runAdds (calls @ [c]) w = snd (addExpense (fst c) (snd c) (runAdds calls w))"
  by (simp add: runAdds_def)

lemma addExpense_bounds:
  assumes "\<forall>e\<in>set (expensesFile w). - (2 ^ 53) \<le> ident e \<and> ident e \<le> b"
    and "0 \<le> b" and "b + 1 < 2 ^ 53"
  shows "\<forall>e\<in>set (expensesFile (snd (addExpense ev args w))).
           - (2 ^ 53) \<le> ident e \<and> ident e \<le> b + 1"
proof -
  from addExpense_store [of ev args w] show ?thesis
  proof
    assume "expensesFile (snd (addExpense ev args w)) = expensesFile w"
    then show ?thesis using assms(1) by fastforce
  next
    assume "\<exists>e. expensesFile (snd (addExpense ev args w)) = expensesFile w @ [e] \<and>
       ident e = getNextId (expensesFile w)"
    then obtain e where e: "expensesFile (snd (addExpense ev args w)) = expensesFile w @ [e]"
      "ident e = getNextId (expensesFile w)" by blast
    have "- (2 ^ 53) \<le> ident e \<and> ident e \<le> b + 1"
      using getNextId_bounds [OF assms] e(2) by simp
    then show ?thesis using assms(1) e(1) by fastforce
  qed
qed

lemma addExpense_distinct:
  assumes "distinct (map ident (expensesFile w))"
    and "\<forall>e\<in>set (expensesFile w). - (2 ^ 53) \<le> ident e \<and> ident e \<le> b"
    and "b + 1 < 2 ^ 53"
  shows "distinct (map ident (expensesFile (snd (addExpense ev args w))))"
proof -
  from addExpense_store [of ev args w] show ?thesis
  proof
    assume "expensesFile (snd (addExpense ev args w)) = expensesFile w"
    then show ?thesis using assms(1) by simp
  next
    assume "\<exists>e. expensesFile (snd (addExpense ev args w)) = expensesFile w @ [e] \<and>
       ident e = getNextId (expensesFile w)"
    then obtain e where e: "expensesFile (snd (addExpense ev args w)) = expensesFile w @ [e]"
      "ident e = getNextId (expensesFile w)" by blast
    have "ident e \<notin> ident ` set (expensesFile w)"
      using getNextId_greater [OF _ assms(2,3)] e(2) by force
    then show ?thesis using assms(1) e(1) by simp
  qed
qed

lemma runAdds_bounds:
  assumes "\<forall>e\<in>set (expensesFile w). - (2 ^ 53) \<le> ident e \<and> ident e \<le> b"
    and "0 \<le> b" and "b + int (length calls) < 2 ^ 53"
  shows "\<forall>e\<in>set (expensesFile (runAdds calls w)).
           - (2 ^ 53) \<le> ident e \<and> ident e \<le> b + int (length calls)"
  using assms(3)
proof (induction calls rule: rev_induct)
  case Nil
  then show ?case using assms(1) by (simp add: runAdds_def)
next
  case (snoc c calls)
  then have ih: "\<forall>e\<in>set (expensesFile (runAdds calls w)).
           - (2 ^ 53) \<le> ident e \<and> ident e \<le> b + int (length calls)"
    by simp
  have "\<forall>e\<in>set (expensesFile (snd (addExpense (fst c) (snd c) (runAdds calls w)))).
           - (2 ^ 53) \<le> ident e \<and> ident e \<le> (b + int (length calls)) + 1"
    using ih assms(2) snoc.prems by (intro addExpense_bounds) simp_all
  then show ?case by (simp add: runAdds_snoc add.commute add.left_commute)
qed

lemma runAdds_distinct:
  assumes "distinct (map ident (expensesFile w))"
    and "\<forall>e\<in>set (expensesFile w). - (2 ^ 53) \<le> ident e \<and> ident e \<le> b"
    and "0 \<le> b" and "b + int (length calls) < 2 ^ 53"
  shows "distinct (map ident (expensesFile (runAdds calls w)))"
  using assms(4)
proof (induction calls rule: rev_induct)
  case Nil
  then show ?case using assms(1) by (simp add: runAdds_def)
next
  case (snoc c calls)
  then have ih: "distinct (map ident (expensesFile (runAdds calls w)))"
    and lt: "b + int (length calls) + 1 < 2 ^ 53"
    by simp_all
  have bd: "\<forall>e\<in>set (expensesFile (runAdds calls w)).
           - (2 ^ 53) \<le> ident e \<and> ident e \<le> b + int (length calls)"
    using lt by (intro runAdds_bounds [OF assms(2,3)]) simp
  show ?case
    unfolding runAdds_snoc by (rule addExpense_distinct [OF ih bd lt])
qed

text \<open>
  C1 (as amended).  Take a state whose identifiers lie between \<open>- 2^53\<close> and a bound
  \<open>b \<ge> 0\<close>, and a sequence of \<open>add\<close> invocations whose number, added to \<open>b\<close>, stays
  below \<open>2^53\<close>.  If the identifiers of the store are pairwise distinct at the start,
  they are pairwise distinct at the end.  And at every position \<open>k\<close> of the sequence,
  when the invocation succeeds on the store \<open>es\<close> reached so far, the store becomes
  \<open>es\<close> with one record appended, whose identifier is 1 when \<open>es\<close> is empty and one
  more than the maximum identifier of \<open>es\<close> otherwise, and is the identifier of no
  record of \<open>es\<close>.
\<close>

theorem add_assigns_fresh_identifier:
  assumes "0 \<le> b" and "b + int (length calls) < 2 ^ 53"
    and "\<forall>e\<in>set (expensesFile w). - (2 ^ 53) \<le> ident e \<and> ident e \<le> b"
  shows
  "(distinct (map ident (expensesFile w)) \<longrightarrow>
      distinct (map ident (expensesFile (runAdds calls w)))) \<and>
   (\<forall>k < length calls.
      let wk = runAdds (take k calls) w; es = expensesFile wk in
      fst (addExpense (fst (calls ! k)) (snd (calls ! k)) wk) = Done \<longrightarrow>
      (\<exists>e. expensesFile (runAdds (take (Suc k) calls) w) = es @ [e] \<and>
           ident e = (if es = [] then 1 else Max (ident ` set es) + 1) \<and>
           ident e \<notin> ident ` set es))"
proof (intro conjI impI allI)
  assume "distinct (map ident (expensesFile w))"
  then show "distinct (map ident (expensesFile (runAdds calls w)))"
    using assms by (intro runAdds_distinct) simp_all
next
  fix k assume k: "k < length calls"
  define wk where "wk = runAdds (take k calls) w"
  define es where "es = expensesFile wk"
  have lt: "b + int k + 1 < 2 ^ 53" using k assms(2) by simp
  have "\<forall>e\<in>set (expensesFile (runAdds (take k calls) w)).
           - (2 ^ 53) \<le> ident e \<and> ident e \<le> b + int (length (take k calls))"
    using k lt by (intro runAdds_bounds [OF assms(3,1)]) simp
  then have bd: "\<forall>e\<in>set es. - (2 ^ 53) \<le> ident e \<and> ident e \<le> b + int k"
    using k by (simp add: es_def wk_def min_def)
  have step: "runAdds (take (Suc k) calls) w =
      snd (addExpense (fst (calls ! k)) (snd (calls ! k)) wk)"
    using k by (simp add: take_Suc_conv_app_nth runAdds_snoc wk_def)
  have "fst (addExpense (fst (calls ! k)) (snd (calls ! k)) wk) = Done \<longrightarrow>
      (\<exists>e. expensesFile (runAdds (take (Suc k) calls) w) = es @ [e] \<and>
           ident e = (if es = [] then 1 else Max (ident ` set es) + 1) \<and>
           ident e \<notin> ident ` set es)"
  proof
    assume "fst (addExpense (fst (calls ! k)) (snd (calls ! k)) wk) = Done"
    from addExpense_Done [OF this] obtain e where
      e: "expensesFile (snd (addExpense (fst (calls ! k)) (snd (calls ! k)) wk)) = es @ [e]"
         "ident e = getNextId es" by (auto simp: es_def)
    have fresh: "ident e \<notin> ident ` set es"
      using getNextId_greater [OF _ bd lt] e(2) by force
    have "ident e = (if es = [] then 1 else Max (ident ` set es) + 1)"
      using e(2) getNextId_Max [OF _ bd lt] by (simp add: getNextId_Nil)
    with e(1) fresh step
    show "\<exists>e. expensesFile (runAdds (take (Suc k) calls) w) = es @ [e] \<and>
           ident e = (if es = [] then 1 else Max (ident ` set es) + 1) \<and>
           ident e \<notin> ident ` set es" by auto
  qed
  then show "let wk = runAdds (take k calls) w; es = expensesFile wk in
      fst (addExpense (fst (calls ! k)) (snd (calls ! k)) wk) = Done \<longrightarrow>
      (\<exists>e. expensesFile (runAdds (take (Suc k) calls) w) = es @ [e] \<and>
           ident e = (if es = [] then 1 else Max (ident ` set es) + 1) \<and>
           ident e \<notin> ident ` set es)"
    unfolding Let_def wk_def es_def .
qed

theorem add_assigns_fresh_identifier_witness:
  "(0::int) \<le> 2 \<and>
   2 + int (length [(exampleEnv, [''add'', ''--description'', ''Dinner'', ''--amount'', ''10''])])
     < 2 ^ 53 \<and>
   list_all (\<lambda>e. - (2 ^ 53) \<le> ident e \<and> ident e \<le> 2) (expensesFile exampleWorld) \<and>
   distinct (map ident (expensesFile exampleWorld)) \<and>
   distinct (map ident (expensesFile (runAdds
      [(exampleEnv, [''add'', ''--description'', ''Dinner'', ''--amount'', ''10''])]
      exampleWorld))) \<and>
   fst (addExpense exampleEnv [''add'', ''--description'', ''Dinner'', ''--amount'', ''10'']
          exampleWorld) = Done \<and>
   (\<exists>e. expensesFile (runAdds
      [(exampleEnv, [''add'', ''--description'', ''Dinner'', ''--amount'', ''10''])]
      exampleWorld) = [lunch, taxi] @ [e] \<and> ident e = 3)"
proof -
  let ?calls = "[(exampleEnv, [''add'', ''--description'', ''Dinner'', ''--amount'', ''10''])]"
  have b: "(0::int) \<le> 2" "2 + int (length ?calls) < 2 ^ 53"
    by simp_all
  have bd: "\<forall>e\<in>set (expensesFile exampleWorld). - (2 ^ 53) \<le> ident e \<and> ident e \<le> 2"
    by (simp add: example_defs)
  have d: "distinct (map ident (expensesFile exampleWorld))"
    by (simp add: example_defs)
  have ok: "fst (addExpense exampleEnv [''add'', ''--description'', ''Dinner'', ''--amount'', ''10'']
          exampleWorld) = Done"
    by (simp add: addExpense_def js_eval)
  have es: "expensesFile exampleWorld = [lunch, taxi]"
    by (simp add: example_defs)
  have r0: "runAdds (take 0 ?calls) exampleWorld = exampleWorld"
    by (simp add: runAdds_def)
  from add_assigns_fresh_identifier [OF b bd]
  have a: "distinct (map ident (expensesFile (runAdds ?calls exampleWorld)))"
    and c: "\<exists>e. expensesFile (runAdds (take (Suc 0) ?calls) exampleWorld) = [lunch, taxi] @ [e] \<and>
           ident e = (if [lunch, taxi] = [] then 1 else Max (ident ` set [lunch, taxi]) + 1)"
    using d ok es r0 by (auto simp: Let_def)
  have m: "Max (ident ` set [lunch, taxi]) + 1 = 3"
    by (simp add: lunch_def taxi_def)
  have l: "list_all (\<lambda>e. - (2 ^ 53) \<le> ident e \<and> ident e \<le> 2) (expensesFile exampleWorld)"
    using bd by (simp add: list_all_iff)
  show ?thesis using a c d ok m l by simp
qed

text \<open>
  The claim as stated fails on a store whose maximum identifier is \<open>2^53\<close>: the sum
  \<open>2^53 + 1\<close> is no double and rounds to \<open>2^53\<close>, so the record added gets the
  identifier that is already there.
\<close>

theorem add_identifier_counterexample:
  "fst (addExpense exampleEnv [''add'', ''--description'', ''Dinner'', ''--amount'', ''10'']
         (emptyWorld\<lparr>expensesFile := [bulk]\<rparr>)) = Done \<and>
   map ident (expensesFile (snd (addExpense exampleEnv
         [''add'', ''--description'', ''Dinner'', ''--amount'', ''10'']
         (emptyWorld\<lparr>expensesFile := [bulk]\<rparr>)))) =
     [9007199254740992, 9007199254740992]"
  by (simp add: addExpense_def js_eval emptyWorld_def loadExpenses_def saveExpenses_def
      consoleLog_def getNextId_def bulk_def plusOne_limit)

section \<open>Validation of the amount in add\<close>


lemma point_no_digit: "\<not> isDigitIn 10 (CHR ''.'')"
  by (simp add: isDigitIn_def digitVal_def)

lemma takeWhile_Nil_iff: "takeWhile P xs = [] \<longleftrightarrow> (case xs of [] \<Rightarrow> True | x # _ \<Rightarrow> \<not> P x)"
  by (cases xs) simp_all





section \<open>Lookup by identifier: update and delete\<close>


lemma findIndex_None_iff: "findIndex P xs = None \<longleftrightarrow> (\<forall>x\<in>set xs. \<not> P x)"
  by (induction xs) auto

lemma findIndex_Some_iff:
  "findIndex P xs = Some k \<longleftrightarrow> k < length xs \<and> P (xs ! k) \<and> (\<forall>j<k. \<not> P (xs ! j))"
proof (induction xs arbitrary: k)
  case Nil
  then show ?case by simp
next
  case (Cons x xs)
  show ?case
  proof (cases "P x")
    case True
    then show ?thesis by (cases k) auto
  next
    case False
    show ?thesis
    proof (cases k)
      case 0
      then show ?thesis using False by auto
    next
      case (Suc n)
      have "(\<forall>j<Suc n. \<not> P ((x # xs) ! j)) \<longleftrightarrow> (\<forall>j<n. \<not> P (xs ! j))"
        using False by (auto simp: less_Suc_eq_0_disj)
      then show ?thesis using False Suc Cons [of n] by auto
    qed
  qed
qed

lemma parseInt_Nil: "parseInt [] = NaN"
  by (simp add: parseInt_def stripSign_def trimStart_def)

lemma idMatches_Nil: "\<not> idMatches [] e"
  by (simp add: idMatches_def parseInt_Nil)

lemma idMatches_same: "idMatches i e \<Longrightarrow> idMatches i e' \<Longrightarrow> ident e = ident e'"
  by (simp add: idMatches_def) (metis jsnum.inject of_int_eq_iff)

text \<open>
  C3 (as amended).  \<open>update\<close> without an identifier argument, or with the empty text
  as identifier argument, fails with MissingArgument.  With a non-empty identifier
  argument that matches no record of the store (no record's identifier equals what
  \<open>parseInt\<close> reads from the argument) it fails with NotFound.  In both cases the state,
  and so the store, is the one before the invocation.
\<close>

theorem update_unknown_identifier:
  "(\<not> truthy (getArgValue args ''--id'') \<longrightarrow>
      updateExpense ev args w =
        (Thrown (MissingArgument ''Expense ID is required (--id)''), w)) \<and>
   (getArgValue args ''--id'' = Some i \<and> i \<noteq> [] \<and>
    (\<forall>e\<in>set (expensesFile w). \<not> idMatches i e) \<longrightarrow>
      updateExpense ev args w = (Thrown (NotFound i), w))"
proof (intro conjI impI)
  assume "\<not> truthy (getArgValue args ''--id'')"
  then show "updateExpense ev args w =
        (Thrown (MissingArgument ''Expense ID is required (--id)''), w)"
    by (simp add: updateExpense_def Let_def)
next
  assume a: "getArgValue args ''--id'' = Some i \<and> i \<noteq> [] \<and>
    (\<forall>e\<in>set (expensesFile w). \<not> idMatches i e)"
  then have "findIndex (idMatches i) (expensesFile w) = None"
    by (simp add: findIndex_None_iff)
  then show "updateExpense ev args w = (Thrown (NotFound i), w)"
    using a by (simp add: updateExpense_def findExpenseById_def loadExpenses_def truthy_def
        argText_def Let_def)
qed

theorem update_unknown_identifier_witness:
  "getArgValue [''update'', ''--id'', ''7'', ''--description'', ''Dinner''] ''--id'' = Some ''7'' \<and>
   ''7'' \<noteq> [] \<and> filter (idMatches ''7'') (expensesFile exampleWorld) = [] \<and>
   updateExpense exampleEnv [''update'', ''--id'', ''7'', ''--description'', ''Dinner'']
     exampleWorld = (Thrown (NotFound ''7''), exampleWorld)"
proof -
  have a: "getArgValue [''update'', ''--id'', ''7'', ''--description'', ''Dinner''] ''--id'' = Some ''7''"
    by (simp add: js_eval)
  have b: "\<forall>e\<in>set (expensesFile exampleWorld). \<not> idMatches ''7'' e"
    by (simp add: example_defs idMatches_def js_eval)
  have c: "filter (idMatches ''7'') (expensesFile exampleWorld) = []"
    using b by (simp add: filter_empty_conv)
  show ?thesis
    using a b c
      update_unknown_identifier [of "[''update'', ''--id'', ''7'', ''--description'', ''Dinner'']"
        exampleEnv exampleWorld "''7''"]
    by simp
qed

text \<open>
  The claim as stated fails at the empty identifier argument: it matches no record, and
  the invocation fails with MissingArgument, not with NotFound.
\<close>

theorem update_unknown_identifier_counterexample:
  "getArgValue [''update'', ''--id'', []] ''--id'' = Some [] \<and>
   filter (idMatches []) (expensesFile exampleWorld) = [] \<and>
   updateExpense exampleEnv [''update'', ''--id'', []] exampleWorld =
     (Thrown (MissingArgument ''Expense ID is required (--id)''), exampleWorld)"
  by (simp add: updateExpense_def js_eval idMatches_Nil)

lemma deleteExpense_found:
  assumes "getArgValue args ''--id'' = Some i"
    and "findIndex (idMatches i) (expensesFile w) = Some k"
  shows "deleteExpense ev args w =
     (Done, w\<lparr>expensesFile := take k (expensesFile w) @ drop (Suc k) (expensesFile w),
              stdout := stdout w @ [''Expense deleted successfully'']\<rparr>)"
proof -
  from assms(2) have "idMatches i (expensesFile w ! k)" by (simp add: findIndex_Some_iff)
  then have "i \<noteq> []" using idMatches_Nil by auto
  then show ?thesis using assms
    by (simp add: deleteExpense_def loadExpenses_def saveExpenses_def consoleLog_def
        truthy_def argText_def Let_def)
qed

lemma deleteExpense_missing:
  assumes "getArgValue args ''--id'' = Some i" and "i \<noteq> []"
    and "findIndex (idMatches i) (expensesFile w) = None"
  shows "deleteExpense ev args w = (Thrown (NotFound i), w)"
  using assms
  by (simp add: deleteExpense_def loadExpenses_def truthy_def argText_def Let_def)

lemma no_match_after_removal:
  assumes "distinct (map ident es)" and "k < length es" and "idMatches i (es ! k)"
  shows "\<forall>e\<in>set (take k es @ drop (Suc k) es). \<not> idMatches i e"
proof
  fix e assume e: "e \<in> set (take k es @ drop (Suc k) es)"
  have d: "distinct (map ident (take k es @ [es ! k] @ drop (Suc k) es))"
    using assms(1,2) by (simp add: id_take_nth_drop [symmetric])
  then have "ident (es ! k) \<notin> ident ` set (take k es @ drop (Suc k) es)"
    by auto
  then have "ident e \<noteq> ident (es ! k)" using e by (metis imageI)
  then show "\<not> idMatches i e" using idMatches_same [OF _ assms(3)] by blast
qed

lemma filter_remove_nth:
  assumes "k < length es" and "P (es ! k)"
  shows "length (filter P es) = Suc (length (filter P (take k es @ drop (Suc k) es)))"
proof -
  have "es = take k es @ es ! k # drop (Suc k) es"
    using assms(1) by (rule id_take_nth_drop)
  then have "filter P es = filter P (take k es) @ es ! k # filter P (drop (Suc k) es)"
    using assms(2) by (metis filter.simps(2) filter_append)
  then show ?thesis by simp
qed

text \<open>
  C4 (as amended).  When the store holds a record that the identifier argument
  matches, \<open>delete\<close> succeeds: with \<open>k\<close> the position of the first such record, the new
  store is the old one without position \<open>k\<close>, every other record kept as it was and in
  its place.  When that record was the only one the argument matches, a second
  \<open>delete\<close> with the same arguments on the resulting state fails with NotFound and
  leaves that state unchanged; when the argument matches more than one record, the
  second \<open>delete\<close> succeeds.  Pairwise distinct identifiers make the matching record the
  only one.
\<close>

theorem delete_removes_first_match:
  assumes "getArgValue args ''--id'' = Some i"
    and "\<exists>e\<in>set (expensesFile w). idMatches i e"
  shows "\<exists>k<length (expensesFile w).
           idMatches i (expensesFile w ! k) \<and>
           (\<forall>j<k. \<not> idMatches i (expensesFile w ! j)) \<and>
           deleteExpense ev args w =
             (Done, w\<lparr>expensesFile := take k (expensesFile w) @ drop (Suc k) (expensesFile w),
                      stdout := stdout w @ [''Expense deleted successfully'']\<rparr>) \<and>
           (length (filter (idMatches i) (expensesFile w)) = 1 \<longrightarrow>
              deleteExpense ev args (snd (deleteExpense ev args w)) =
                (Thrown (NotFound i), snd (deleteExpense ev args w))) \<and>
           (1 < length (filter (idMatches i) (expensesFile w)) \<longrightarrow>
              fst (deleteExpense ev args (snd (deleteExpense ev args w))) = Done) \<and>
           (distinct (map ident (expensesFile w)) \<longrightarrow>
              length (filter (idMatches i) (expensesFile w)) = 1)"
proof -
  let ?es = "expensesFile w"
  from assms(2) obtain k where k: "findIndex (idMatches i) ?es = Some k"
    using findIndex_None_iff [of "idMatches i" ?es] by fastforce
  then have kp: "k < length ?es" "idMatches i (?es ! k)" "\<forall>j<k. \<not> idMatches i (?es ! j)"
    by (simp_all add: findIndex_Some_iff)
  have ne: "i \<noteq> []" using kp(2) idMatches_Nil by auto
  note del = deleteExpense_found [OF assms(1) k, of ev]
  let ?w' = "snd (deleteExpense ev args w)"
  let ?rest = "take k ?es @ drop (Suc k) ?es"
  have es': "expensesFile ?w' = ?rest" by (simp add: del)
  have len: "length (filter (idMatches i) ?es) = Suc (length (filter (idMatches i) ?rest))"
    using kp(1,2) by (rule filter_remove_nth)
  have once: "deleteExpense ev args ?w' = (Thrown (NotFound i), ?w')"
    if "length (filter (idMatches i) ?es) = 1"
  proof -
    from that len have "filter (idMatches i) ?rest = []" by simp
    then have "\<forall>e\<in>set ?rest. \<not> idMatches i e"
      by (simp only: filter_empty_conv)
    then have "findIndex (idMatches i) (expensesFile ?w') = None"
      by (simp only: es' findIndex_None_iff)
    then show ?thesis by (rule deleteExpense_missing [OF assms(1) ne])
  qed
  have more: "fst (deleteExpense ev args ?w') = Done"
    if "1 < length (filter (idMatches i) ?es)"
  proof -
    from that len have "filter (idMatches i) ?rest \<noteq> []" by auto
    then have "\<exists>e\<in>set ?rest. idMatches i e"
      by (simp only: filter_empty_conv) blast
    then have "\<exists>e\<in>set (expensesFile ?w'). idMatches i e"
      by (simp only: es')
    then obtain j where "findIndex (idMatches i) (expensesFile ?w') = Some j"
      using findIndex_None_iff [of "idMatches i" "expensesFile ?w'"] by fastforce
    then show ?thesis using deleteExpense_found [OF assms(1)] by simp
  qed
  have uniq: "length (filter (idMatches i) ?es) = 1" if dist: "distinct (map ident ?es)"
  proof -
    have "filter (idMatches i) ?rest = []"
      using no_match_after_removal [OF dist kp(1,2)] by (simp only: filter_empty_conv)
    then show ?thesis using len by simp
  qed
  show ?thesis using kp del once more uniq by blast
qed

theorem delete_removes_first_match_witness:
  "getArgValue [''delete'', ''--id'', ''1''] ''--id'' = Some ''1'' \<and>
   (\<exists>e\<in>set (expensesFile exampleWorld). idMatches ''1'' e) \<and>
   length (filter (idMatches ''1'') (expensesFile exampleWorld)) = 1 \<and>
   distinct (map ident (expensesFile exampleWorld)) \<and>
   expensesFile (snd (deleteExpense exampleEnv [''delete'', ''--id'', ''1''] exampleWorld)) = [taxi] \<and>
   fst (deleteExpense exampleEnv [''delete'', ''--id'', ''1'']
          (snd (deleteExpense exampleEnv [''delete'', ''--id'', ''1''] exampleWorld))) =
     Thrown (NotFound ''1'')"
proof -
  let ?args = "[''delete'', ''--id'', ''1'']"
  have a: "getArgValue ?args ''--id'' = Some ''1''"
    by (simp add: js_eval)
  have m1: "idMatches ''1'' lunch" and m2: "\<not> idMatches ''1'' taxi"
    by (simp_all add: lunch_def taxi_def idMatches_def js_eval)
  have es: "expensesFile exampleWorld = [lunch, taxi]"
    by (simp add: example_defs)
  have b: "\<exists>e\<in>set (expensesFile exampleWorld). idMatches ''1'' e"
    using m1 es by simp
  have one: "length (filter (idMatches ''1'') (expensesFile exampleWorld)) = 1"
    using m1 m2 es by simp
  have d: "distinct (map ident (expensesFile exampleWorld))"
    by (simp add: example_defs)
  from delete_removes_first_match [OF a b, of exampleEnv] obtain k where
    k: "k < length (expensesFile exampleWorld)" "idMatches ''1'' (expensesFile exampleWorld ! k)"
    and r: "deleteExpense exampleEnv ?args exampleWorld =
             (Done, exampleWorld\<lparr>expensesFile := take k (expensesFile exampleWorld) @
                        drop (Suc k) (expensesFile exampleWorld),
                      stdout := stdout exampleWorld @ [''Expense deleted successfully'']\<rparr>)"
    and s: "length (filter (idMatches ''1'') (expensesFile exampleWorld)) = 1 \<longrightarrow>
              deleteExpense exampleEnv ?args (snd (deleteExpense exampleEnv ?args exampleWorld)) =
                (Thrown (NotFound ''1''), snd (deleteExpense exampleEnv ?args exampleWorld))"
    by blast
  have "k = 0" using k m2 es by (cases k) (auto simp: less_Suc_eq)
  then have "expensesFile (snd (deleteExpense exampleEnv ?args exampleWorld)) = [taxi]"
    using r es by simp
  then show ?thesis using a b d one s by simp
qed

text \<open>
  The claim as stated fails on a store in which two records share the identifier: the
  first \<open>delete\<close> removes the first of them and the second \<open>delete\<close> succeeds as well.
\<close>

theorem delete_twice_counterexample:
  "idMatches ''1'' lunch \<and> idMatches ''1'' snack \<and>
   expensesFile (snd (deleteExpense exampleEnv [''delete'', ''--id'', ''1'']
     (emptyWorld\<lparr>expensesFile := [lunch, snack]\<rparr>))) = [snack] \<and>
   fst (deleteExpense exampleEnv [''delete'', ''--id'', ''1'']
     (snd (deleteExpense exampleEnv [''delete'', ''--id'', ''1'']
        (emptyWorld\<lparr>expensesFile := [lunch, snack]\<rparr>)))) = Done"
proof -
  have m: "idMatches ''1'' lunch" "idMatches ''1'' snack"
    by (simp_all add: lunch_def snack_def idMatches_def js_eval)
  have a: "getArgValue [''delete'', ''--id'', ''1''] ''--id'' = Some ''1''"
    by (simp add: js_eval)
  have first: "deleteExpense exampleEnv [''delete'', ''--id'', ''1'']
     (emptyWorld\<lparr>expensesFile := [lunch, snack]\<rparr>) =
     (Done, emptyWorld\<lparr>expensesFile := [snack], stdout := [''Expense deleted successfully'']\<rparr>)"
    using m a
    by (simp add: deleteExpense_def truthy_def argText_def loadExpenses_def saveExpenses_def
        consoleLog_def emptyWorld_def Let_def)
  have second: "fst (deleteExpense exampleEnv [''delete'', ''--id'', ''1'']
     (emptyWorld\<lparr>expensesFile := [snack], stdout := [''Expense deleted successfully'']\<rparr>)) = Done"
    using m a
    by (simp add: deleteExpense_def truthy_def argText_def loadExpenses_def saveExpenses_def
        consoleLog_def emptyWorld_def Let_def)
  show ?thesis using m first second by simp
qed

section \<open>The invariant of the store\<close>

lemma map_ident_update:
  assumes "k < length es \<longrightarrow> ident e = ident (es ! k)"
  shows "map ident (es[k := e]) = map ident es"
proof (cases "k < length es")
  case True
  then show ?thesis using assms by (simp add: map_update list_update_same_conv)
next
  case False
  then have "length es \<le> k" by simp
  then show ?thesis by (simp add: list_update_beyond)
qed

lemma distinct_remove_nth:
  assumes "distinct (map f es)"
  shows "distinct (map f (take k es @ drop (Suc k) es))"
proof -
  have "distinct (map f (take k es @ drop k es))" using assms by simp
  then have a: "distinct (map f (take k es))" and b: "distinct (map f (drop k es))"
    and c: "set (map f (take k es)) \<inter> set (map f (drop k es)) = {}"
    by (simp_all only: map_append distinct_append)
  have "drop (Suc k) es = tl (drop k es)" by (simp add: drop_Suc tl_drop)
  then have s: "set (drop (Suc k) es) \<subseteq> set (drop k es)"
    by (metis list.set_sel(2) subsetI tl_Nil)
  have b': "distinct (map f (drop (Suc k) es))"
    using b \<open>drop (Suc k) es = tl (drop k es)\<close> by (simp add: map_tl distinct_tl)
  have c': "set (map f (take k es)) \<inter> set (map f (drop (Suc k) es)) = {}"
    using c s by auto
  show ?thesis using a b' c' by simp
qed

lemma updateExpense_idents:
  "map ident (expensesFile (snd (updateExpense ev args w))) = map ident (expensesFile w)"
proof (cases "truthy (getArgValue args ''--id'')")
  case False
  then show ?thesis by (simp add: updateExpense_def Let_def)
next
  case True
  show ?thesis
  proof (cases "findExpenseById (expensesFile w) (argText (getArgValue args ''--id''))")
    case (Inl err)
    then show ?thesis using True by (simp add: updateExpense_def loadExpenses_def Let_def)
  next
    case (Inr k)
    show ?thesis
    proof (cases "truthy (getArgValue args ''--amount'')")
      case False
      then show ?thesis using True Inr
        by (simp add: updateExpense_def loadExpenses_def saveExpenses_def consoleLog_def Let_def
            map_ident_update)
    next
      case am: True
      show ?thesis
      proof (cases "validateAmount (argText (getArgValue args ''--amount''))")
        case (Inl err)
        then show ?thesis using True Inr am
          by (simp add: updateExpense_def loadExpenses_def Let_def)
      next
        case v: (Inr v)
        then show ?thesis using True Inr am
          by (simp add: updateExpense_def loadExpenses_def saveExpenses_def consoleLog_def
              Let_def map_ident_update)
      qed
    qed
  qed
qed

lemma deleteExpense_distinct:
  assumes "distinct (map ident (expensesFile w))"
  shows "distinct (map ident (expensesFile (snd (deleteExpense ev args w))))"
proof (cases "truthy (getArgValue args ''--id'')")
  case False
  then show ?thesis using assms by (simp add: deleteExpense_def Let_def)
next
  case True
  show ?thesis
  proof (cases "findIndex (idMatches (argText (getArgValue args ''--id''))) (expensesFile w)")
    case None
    then show ?thesis using True assms by (simp add: deleteExpense_def loadExpenses_def Let_def)
  next
    case (Some k)
    then have "expensesFile (snd (deleteExpense ev args w)) =
        take k (expensesFile w) @ drop (Suc k) (expensesFile w)"
      using True
      by (simp add: deleteExpense_def loadExpenses_def saveExpenses_def consoleLog_def Let_def)
    then show ?thesis using distinct_remove_nth [OF assms] by simp
  qed
qed

lemma listExpenses_store: "expensesFile (snd (listExpenses ev args w)) = expensesFile w"
  by (simp add: listExpenses_def consoleLog_def Let_def)

lemma showSummary_store: "expensesFile (snd (showSummary ev args w)) = expensesFile w"
proof (cases "truthy (getArgValue args ''--month'')")
  case False
  then show ?thesis by (simp add: showSummary_def consoleLog_def Let_def)
next
  case True
  then show ?thesis
    by (cases "parseMonth (argText (getArgValue args ''--month''))")
       (simp_all add: showSummary_def consoleLog_def Let_def)
qed

lemma setBudget_store: "expensesFile (snd (setBudget ev args w)) = expensesFile w"
proof (cases "\<not> truthy (getArgValue args ''--month'') \<or> \<not> truthy (getArgValue args ''--amount'')")
  case True
  then show ?thesis by (auto simp: setBudget_def Let_def)
next
  case False
  show ?thesis
  proof (cases "parseMonth (argText (getArgValue args ''--month''))")
    case (Inl err)
    then show ?thesis using False by (simp add: setBudget_def Let_def)
  next
    case (Inr m)
    then show ?thesis using False
      by (cases "validateAmount (argText (getArgValue args ''--amount''))")
         (simp_all add: setBudget_def consoleLog_def Let_def)
  qed
qed

lemma exportToCsv_store: "expensesFile (snd (exportToCsv ev args w)) = expensesFile w"
  by (simp add: exportToCsv_def consoleLog_def writeFile_def Let_def)

text \<open>Every command other than \<open>add\<close> keeps the identifiers of the store pairwise
  distinct; \<open>add\<close> keeps them so while they stay below \<open>2^53\<close> (lemma
  \<open>addExpense_distinct\<close>).\<close>

lemma identifiers_stay_distinct:
  assumes "distinct (map ident (expensesFile w))"
    and "h \<in> {updateExpense, deleteExpense, listExpenses, showSummary, setBudget,
               exportToCsv}"
  shows "distinct (map ident (expensesFile (snd (h ev args w))))"
  using assms deleteExpense_distinct [OF assms(1)]
  by (auto simp: updateExpense_idents listExpenses_store showSummary_store setBudget_store
      exportToCsv_store)

section \<open>The frame of update\<close>

lemma validateAmount_error: "validateAmount a = Inl err \<Longrightarrow> err = InvalidAmount"
  by (auto simp: validateAmount_def Let_def split: if_splits)

text \<open>
  C5 (as amended).  Let the identifier argument match a record of the store, and let
  \<open>k\<close> be the position of the first such record.  If an amount argument is supplied
  (non-empty) and is not valid, \<open>update\<close> fails with InvalidAmount and the state is
  unchanged.  Otherwise \<open>update\<close> succeeds and, in the new store, the record at \<open>k\<close> has
  its description, amount and category overwritten exactly where a non-empty argument
  was supplied (the trimmed text, or the validated amount as it is persisted) and
  unchanged where not; its identifier and date are unchanged; the store has the same
  length and every record at another position is unchanged.
\<close>

theorem update_overwrites_supplied_fields:
  assumes "getArgValue args ''--id'' = Some i"
    and "k < length (expensesFile w)"
    and "idMatches i (expensesFile w ! k)"
    and "\<forall>j<k. \<not> idMatches i (expensesFile w ! j)"
  shows "(truthy (getArgValue args ''--amount'') \<and>
          validateAmount (argText (getArgValue args ''--amount'')) = Inl InvalidAmount \<longrightarrow>
            updateExpense ev args w = (Thrown InvalidAmount, w)) \<and>
         ((truthy (getArgValue args ''--amount'') \<longrightarrow>
            validateAmount (argText (getArgValue args ''--amount'')) = Inr v) \<longrightarrow>
          (\<exists>es'. updateExpense ev args w =
                   (Done, w\<lparr>expensesFile := es',
                            stdout := stdout w @
                              [''Expense updated successfully (ID: '' @ i @ '')'']\<rparr>) \<and>
                 length es' = length (expensesFile w) \<and>
                 (\<forall>j<length (expensesFile w). j \<noteq> k \<longrightarrow> es' ! j = expensesFile w ! j) \<and>
                 ident (es' ! k) = ident (expensesFile w ! k) \<and>
                 date (es' ! k) = date (expensesFile w ! k) \<and>
                 description (es' ! k) =
                   (if truthy (getArgValue args ''--description'')
                    then trim (argText (getArgValue args ''--description''))
                    else description (expensesFile w ! k)) \<and>
                 amount (es' ! k) =
                   (if truthy (getArgValue args ''--amount'') then toJson v
                    else amount (expensesFile w ! k)) \<and>
                 category (es' ! k) =
                   (if truthy (getArgValue args ''--category'')
                    then trim (argText (getArgValue args ''--category''))
                    else category (expensesFile w ! k))))"
proof -
  have f: "findIndex (idMatches i) (expensesFile w) = Some k"
    using assms(2-4) by (simp add: findIndex_Some_iff)
  have ne: "i \<noteq> []" using assms(3) idMatches_Nil by auto
  have t: "truthy (getArgValue args ''--id'')" "argText (getArgValue args ''--id'') = i"
    using assms(1) ne by (simp_all add: truthy_def argText_def)
  show ?thesis
  proof (intro conjI impI)
    assume "truthy (getArgValue args ''--amount'') \<and>
          validateAmount (argText (getArgValue args ''--amount'')) = Inl InvalidAmount"
    then show "updateExpense ev args w = (Thrown InvalidAmount, w)"
      using f t by (simp add: updateExpense_def findExpenseById_def loadExpenses_def Let_def)
  next
    assume v: "truthy (getArgValue args ''--amount'') \<longrightarrow>
            validateAmount (argText (getArgValue args ''--amount'')) = Inr v"
    show "\<exists>es'. updateExpense ev args w =
                   (Done, w\<lparr>expensesFile := es',
                            stdout := stdout w @
                              [''Expense updated successfully (ID: '' @ i @ '')'']\<rparr>) \<and>
                 length es' = length (expensesFile w) \<and>
                 (\<forall>j<length (expensesFile w). j \<noteq> k \<longrightarrow> es' ! j = expensesFile w ! j) \<and>
                 ident (es' ! k) = ident (expensesFile w ! k) \<and>
                 date (es' ! k) = date (expensesFile w ! k) \<and>
                 description (es' ! k) =
                   (if truthy (getArgValue args ''--description'')
                    then trim (argText (getArgValue args ''--description''))
                    else description (expensesFile w ! k)) \<and>
                 amount (es' ! k) =
                   (if truthy (getArgValue args ''--amount'') then toJson v
                    else amount (expensesFile w ! k)) \<and>
                 category (es' ! k) =
                   (if truthy (getArgValue args ''--category'')
                    then trim (argText (getArgValue args ''--category''))
                    else category (expensesFile w ! k))"
    proof -
      let ?e = "expensesFile w ! k"
      let ?n = "?e\<lparr>description :=
                     (if truthy (getArgValue args ''--description'')
                      then trim (argText (getArgValue args ''--description''))
                      else description ?e),
                   amount :=
                     (if truthy (getArgValue args ''--amount'') then toJson v else amount ?e),
                   category :=
                     (if truthy (getArgValue args ''--category'')
                      then trim (argText (getArgValue args ''--category''))
                      else category ?e)\<rparr>"
      have r: "updateExpense ev args w =
                 (Done, w\<lparr>expensesFile := (expensesFile w)[k := ?n],
                          stdout := stdout w @
                            [''Expense updated successfully (ID: '' @ i @ '')'']\<rparr>)"
        using v f t
        by (simp add: updateExpense_def findExpenseById_def loadExpenses_def saveExpenses_def
            consoleLog_def Let_def)
      show ?thesis
        by (rule exI [of _ "(expensesFile w)[k := ?n]"]) (use r assms(2) in simp)
    qed
  qed
qed

theorem update_overwrites_supplied_fields_witness:
  "getArgValue [''update'', ''--id'', ''2'', ''--amount'', ''25'', ''--category'', '' Cab ''] ''--id'' =
     Some ''2'' \<and>
   (1::nat) < length (expensesFile exampleWorld) \<and>
   idMatches ''2'' (expensesFile exampleWorld ! 1) \<and>
   \<not> idMatches ''2'' (expensesFile exampleWorld ! 0) \<and>
   expensesFile (snd (updateExpense exampleEnv
     [''update'', ''--id'', ''2'', ''--amount'', ''25'', ''--category'', '' Cab ''] exampleWorld)) =
     [lunch, taxi\<lparr>amount := Num 25, category := ''Cab''\<rparr>]"
proof -
  let ?args = "[''update'', ''--id'', ''2'', ''--amount'', ''25'', ''--category'', '' Cab '']"
  have a: "getArgValue ?args ''--id'' = Some ''2''"
    by (simp add: js_eval)
  have es: "expensesFile exampleWorld = [lunch, taxi]"
    by (simp add: example_defs)
  have m1: "\<not> idMatches ''2'' lunch" and m2: "idMatches ''2'' taxi"
    by (simp_all add: lunch_def taxi_def idMatches_def js_eval)
  have b: "(1::nat) < length (expensesFile exampleWorld)"
    and c: "idMatches ''2'' (expensesFile exampleWorld ! 1)"
    and d: "\<forall>j<1. \<not> idMatches ''2'' (expensesFile exampleWorld ! j)"
    using m1 m2 es by simp_all
  have am: "truthy (getArgValue ?args ''--amount'')"
    "validateAmount (argText (getArgValue ?args ''--amount'')) = Inr (Fin 25)"
    by (simp_all add: js_eval)
  have de: "\<not> truthy (getArgValue ?args ''--description'')"
    by (simp add: js_eval)
  have ca: "truthy (getArgValue ?args ''--category'')"
    "trim (argText (getArgValue ?args ''--category'')) = ''Cab''"
    by (simp_all add: js_eval)
  from update_overwrites_supplied_fields [OF a b c d, of exampleEnv "Fin 25"] am
  obtain es' where
    r: "updateExpense exampleEnv ?args exampleWorld =
          (Done, exampleWorld\<lparr>expensesFile := es',
             stdout := stdout exampleWorld @ [''Expense updated successfully (ID: '' @ ''2'' @ '')'']\<rparr>)"
    and l: "length es' = length (expensesFile exampleWorld)"
    and o: "\<forall>j<length (expensesFile exampleWorld). j \<noteq> 1 \<longrightarrow> es' ! j = expensesFile exampleWorld ! j"
    and f: "ident (es' ! 1) = ident (expensesFile exampleWorld ! 1)"
       "date (es' ! 1) = date (expensesFile exampleWorld ! 1)"
       "description (es' ! 1) = description (expensesFile exampleWorld ! 1)"
       "amount (es' ! 1) = toJson (Fin 25)"
       "category (es' ! 1) = ''Cab''"
    using de ca by auto
  from l es obtain x y where xy: "es' = [x, y]"
    by (cases es'; cases "tl es'") auto
  have "x = lunch" using o es xy by auto
  moreover have "y = taxi\<lparr>amount := Num 25, category := ''Cab''\<rparr>"
    using f es xy by (simp add: toJson_def taxi_def)
  moreover have "\<not> idMatches ''2'' (expensesFile exampleWorld ! 0)"
    using m1 es by simp
  ultimately show ?thesis using a b c r xy by simp
qed

text \<open>
  The claim as stated fails: with a description supplied next to an amount that is not
  valid, the description is not overwritten (the invocation fails and saves nothing);
  and a description supplied as the empty text is not written either.
\<close>

theorem update_overwrites_counterexample:
  "truthy (getArgValue [''update'', ''--id'', ''1'', ''--description'', ''Dinner'', ''--amount'', ''abc'']
     ''--description'') \<and>
   updateExpense exampleEnv
     [''update'', ''--id'', ''1'', ''--description'', ''Dinner'', ''--amount'', ''abc''] exampleWorld =
     (Thrown InvalidAmount, exampleWorld) \<and>
   getArgValue [''update'', ''--id'', ''1'', ''--description'', []] ''--description'' = Some [] \<and>
   fst (updateExpense exampleEnv [''update'', ''--id'', ''1'', ''--description'', []] exampleWorld) =
     Done \<and>
   expensesFile (snd (updateExpense exampleEnv [''update'', ''--id'', ''1'', ''--description'', []]
     exampleWorld)) = expensesFile exampleWorld \<and>
   description (expensesFile exampleWorld ! 0) = ''Lunch''"
  by (simp add: updateExpense_def findExpenseById_def idMatches_def js_eval example_defs)

section \<open>Listing\<close>

lemma replicate_numeral_unfold: "replicate (numeral n) x = x # replicate (pred_numeral n) x"
  by (simp add: numeral_eq_Suc)

lemma listRow_example:
  "listRow exampleEnv lunch = ''1   2024-08-01 Lunch                      $20       Food''"
  by (simp add: listRow_def padEnd_def formatCurrency_def showJson_def showInt_def showNat.simps
      digitChar_def decimalText_def example_defs Let_def replicate_numeral_unfold)

text \<open>
  C6 (as amended).  With a non-empty category argument, \<open>list\<close> prints the table
  header and one row for each record whose category, in lower case, equals the argument
  in lower case, the rows in the order of the store; when there is no such record it
  prints the single line \<open>No expenses found\<close> and no table.  Without a category
  argument, or with the empty text as category argument, it does the same for all the
  records of the store.
\<close>

theorem list_filters_by_category:
  "(getArgValue args ''--category'' = Some c \<and> c \<noteq> [] \<longrightarrow>
      listExpenses ev args w =
        (Done, w\<lparr>stdout := stdout w @
           (if filter (\<lambda>e. toLowerCase (category e) = toLowerCase c) (expensesFile w) = []
            then [''No expenses found'']
            else listHeader @
                 map (listRow ev)
                   (filter (\<lambda>e. toLowerCase (category e) = toLowerCase c) (expensesFile w)))\<rparr>)) \<and>
   (\<not> truthy (getArgValue args ''--category'') \<longrightarrow>
      listExpenses ev args w =
        (Done, w\<lparr>stdout := stdout w @
           (if expensesFile w = [] then [''No expenses found'']
            else listHeader @ map (listRow ev) (expensesFile w))\<rparr>))"
proof -
  have eq: "categoryIs c = (\<lambda>e. toLowerCase (category e) = toLowerCase c)"
    by (rule ext) (simp add: categoryIs_def)
  show ?thesis
    by (simp add: listExpenses_def loadExpenses_def consoleLog_def truthy_def argText_def
        Let_def eq)
qed

theorem list_filters_by_category_witness:
  "getArgValue [''list'', ''--category'', ''FOOD''] ''--category'' = Some ''FOOD'' \<and>
   ''FOOD'' \<noteq> [] \<and>
   filter (\<lambda>e. toLowerCase (category e) = toLowerCase ''FOOD'') (expensesFile exampleWorld) =
     [lunch] \<and>
   stdout (snd (listExpenses exampleEnv [''list'', ''--category'', ''FOOD''] exampleWorld)) =
     listHeader @ [listRow exampleEnv lunch]"
proof -
  let ?args = "[''list'', ''--category'', ''FOOD'']"
  have a: "getArgValue ?args ''--category'' = Some ''FOOD''"
    by (simp add: js_eval)
  have f: "filter (\<lambda>e. toLowerCase (category e) = toLowerCase ''FOOD'') (expensesFile exampleWorld) =
     [lunch]"
    by (simp add: example_defs toLowerCase_def lowerChar_def)
  show ?thesis
    using a f list_filters_by_category [of ?args "''FOOD''" exampleEnv exampleWorld]
    by (simp add: example_defs)
qed

text \<open>
  The claim as stated fails at the empty category argument: no record has the empty
  category, yet the table of all records is printed, not \<open>No expenses found\<close>.
\<close>

theorem list_empty_category_counterexample:
  "getArgValue [''list'', ''--category'', []] ''--category'' = Some [] \<and>
   filter (\<lambda>e. toLowerCase (category e) = toLowerCase []) (expensesFile exampleWorld) = [] \<and>
   stdout (snd (listExpenses exampleEnv [''list'', ''--category'', []] exampleWorld)) =
     listHeader @ [listRow exampleEnv lunch, listRow exampleEnv taxi]"
  by (simp add: listExpenses_def js_eval example_defs toLowerCase_def)

section \<open>Validation of the month\<close>

lemma toDouble_integer: "toDouble (of_int z) = Fin r \<Longrightarrow> \<exists>y::int. r = of_int y"
  by (auto simp: toDouble_def split: if_splits intro: exI [of _ 0])

lemma parseInt_integer:
  assumes "parseInt m = Fin r"
  shows "\<exists>z::int. r = of_int z"
proof -
  from assms obtain neg n where "toDouble (signed neg (of_nat n)) = Fin r"
    by (auto simp: parseInt_def Let_def split: prod.splits if_splits)
  moreover have "signed neg (of_nat n) = of_int (if neg then - int n else int n)"
    by (simp add: signed_def)
  ultimately show ?thesis using toDouble_integer by metis
qed

lemma parseMonth_valid:
  "parseMonth m = Inr k \<longleftrightarrow> 1 \<le> k \<and> k \<le> 12 \<and> parseInt m = Fin (of_nat k)"
proof (cases "parseInt m")
  case (Fin r)
  then obtain z :: int where z: "r = of_int z" using parseInt_integer by blast
  show ?thesis
  proof
    assume "parseMonth m = Inr k"
    then show "1 \<le> k \<and> k \<le> 12 \<and> parseInt m = Fin (of_nat k)"
      using Fin z by (auto simp: parseMonth_def isNaN_def jsLt_def jsGt_def Let_def split: if_splits)
  next
    assume "1 \<le> k \<and> k \<le> 12 \<and> parseInt m = Fin (of_nat k)"
    then show "parseMonth m = Inr k"
      by (auto simp: parseMonth_def isNaN_def jsLt_def jsGt_def Let_def)
  qed
qed (auto simp: parseMonth_def isNaN_def jsLt_def jsGt_def Let_def)

lemma parseMonth_error: "parseMonth m = Inl err \<Longrightarrow> err = InvalidMonth"
  by (auto simp: parseMonth_def Let_def split: if_splits jsnum.splits)

lemma parseMonth_invalid:
  "parseMonth m = Inl InvalidMonth \<longleftrightarrow>
   \<not> (\<exists>k::nat. 1 \<le> k \<and> k \<le> 12 \<and> parseInt m = Fin (of_nat k))"
proof
  assume e: "parseMonth m = Inl InvalidMonth"
  show "\<not> (\<exists>k::nat. 1 \<le> k \<and> k \<le> 12 \<and> parseInt m = Fin (of_nat k))"
  proof
    assume "\<exists>k::nat. 1 \<le> k \<and> k \<le> 12 \<and> parseInt m = Fin (of_nat k)"
    then obtain k :: nat where "1 \<le> k \<and> k \<le> 12 \<and> parseInt m = Fin (of_nat k)" ..
    then have "parseMonth m = Inr k" by (simp only: parseMonth_valid)
    with e show False by simp
  qed
next
  assume n: "\<not> (\<exists>k::nat. 1 \<le> k \<and> k \<le> 12 \<and> parseInt m = Fin (of_nat k))"
  show "parseMonth m = Inl InvalidMonth"
  proof (cases "parseMonth m")
    case (Inl err)
    then show ?thesis using parseMonth_error by blast
  next
    case (Inr k)
    then have "1 \<le> k \<and> k \<le> 12 \<and> parseInt m = Fin (of_nat k)"
      by (simp only: parseMonth_valid)
    with n show ?thesis by blast
  qed
qed

lemma showSummary_month:
  assumes "getArgValue args ''--month'' = Some m" and "m \<noteq> []"
  shows "(parseMonth m = Inl InvalidMonth \<longrightarrow> showSummary ev args w = (Thrown InvalidMonth, w)) \<and>
         (parseMonth m \<noteq> Inl InvalidMonth \<longrightarrow> fst (showSummary ev args w) = Done)"
proof (cases "parseMonth m")
  case (Inl err)
  then have "parseMonth m = Inl InvalidMonth" using parseMonth_error by blast
  then show ?thesis using assms
    by (simp add: showSummary_def truthy_def argText_def Let_def)
next
  case (Inr k)
  then show ?thesis using assms
    by (simp add: showSummary_def truthy_def argText_def Let_def)
qed

lemma showSummary_no_month:
  "\<not> truthy (getArgValue args ''--month'') \<Longrightarrow> fst (showSummary ev args w) = Done"
  by (simp add: showSummary_def Let_def)

lemma setBudget_month:
  assumes "getArgValue args ''--month'' = Some m" and "m \<noteq> []"
    and "truthy (getArgValue args ''--amount'')"
  shows "(parseMonth m = Inl InvalidMonth \<longrightarrow> setBudget ev args w = (Thrown InvalidMonth, w)) \<and>
         (parseMonth m \<noteq> Inl InvalidMonth \<longrightarrow> fst (setBudget ev args w) \<noteq> Thrown InvalidMonth)"
proof (cases "parseMonth m")
  case (Inl err)
  then have "parseMonth m = Inl InvalidMonth" using parseMonth_error by blast
  then show ?thesis using assms
    by (simp add: setBudget_def truthy_def argText_def Let_def)
next
  case (Inr k)
  show ?thesis
  proof (cases "validateAmount (argText (getArgValue args ''--amount''))")
    case (Inl err)
    then have "err = InvalidAmount" by (rule validateAmount_error)
    then show ?thesis using Inl Inr assms
      by (simp add: setBudget_def truthy_def argText_def Let_def)
  next
    case (Inr v)
    then show ?thesis using \<open>parseMonth m = Inr k\<close> assms
      by (simp add: setBudget_def truthy_def argText_def Let_def)
  qed
qed

lemma showSummary_no_month_output:
  assumes "\<not> truthy (getArgValue args ''--month'')"
  shows "let c = getArgValue args ''--category'';
           fs = (if truthy c
                 then filter (\<lambda>e. toLowerCase (category e) = toLowerCase (argText c))
                        (expensesFile w)
                 else expensesFile w);
           label = (if truthy c then ''Total expenses ('' @ argText c @ '')''
                    else ''Total expenses'')
       in showSummary ev args w =
            (Done, w\<lparr>stdout := stdout w @
               [label @ '': '' @ formatCurrency ev (Num (totalOf fs))] @
               (if \<not> truthy c \<and> fs \<noteq> []
                then ([CHR 0x0A] @ ''Breakdown by category:'') #
                     map (breakdownLine ev) (breakdown ev fs)
                else [])\<rparr>)"
proof -
  have eq: "categoryIs c = (\<lambda>e. toLowerCase (category e) = toLowerCase c)" for c
    by (rule ext) (simp add: categoryIs_def)
  show ?thesis using assms
    by (simp add: showSummary_def loadExpenses_def consoleLog_def Let_def eq)
qed

text \<open>
  C8 (as amended).  Call a month argument valid when \<open>parseInt\<close> reads from it an
  integer from 1 to 12.  \<open>summary\<close> with a non-empty month argument fails with
  InvalidMonth exactly when the argument is not valid, and then leaves the state
  unchanged.  With no month argument, or the empty text, \<open>summary\<close> does not fail and
  applies no month filter: it prints the total of all the records of the store (of those
  in the category, when a category argument is given) and, without a category argument
  and on a store that is not empty, the breakdown of all of them.  \<open>budget\<close> with a
  non-empty month argument and a non-empty amount argument fails with InvalidMonth
  exactly when the month argument is not valid, and then leaves the state unchanged;
  when either argument is missing or empty it fails with MissingArgument.
\<close>

theorem month_argument_validated:
  "(getArgValue args ''--month'' = Some m \<and> m \<noteq> [] \<longrightarrow>
      (fst (showSummary ev args w) = Thrown InvalidMonth \<longleftrightarrow>
         \<not> (\<exists>k::nat. 1 \<le> k \<and> k \<le> 12 \<and> parseInt m = Fin (of_nat k))) \<and>
      (fst (showSummary ev args w) = Thrown InvalidMonth \<longrightarrow> snd (showSummary ev args w) = w)) \<and>
   (getArgValue args ''--month'' = Some m \<and> m \<noteq> [] \<and> truthy (getArgValue args ''--amount'') \<longrightarrow>
      (fst (setBudget ev args w) = Thrown InvalidMonth \<longleftrightarrow>
         \<not> (\<exists>k::nat. 1 \<le> k \<and> k \<le> 12 \<and> parseInt m = Fin (of_nat k))) \<and>
      (fst (setBudget ev args w) = Thrown InvalidMonth \<longrightarrow> snd (setBudget ev args w) = w)) \<and>
   (\<not> truthy (getArgValue args ''--month'') \<longrightarrow>
      (let c = getArgValue args ''--category'';
           fs = (if truthy c
                 then filter (\<lambda>e. toLowerCase (category e) = toLowerCase (argText c))
                        (expensesFile w)
                 else expensesFile w);
           label = (if truthy c then ''Total expenses ('' @ argText c @ '')''
                    else ''Total expenses'')
       in showSummary ev args w =
            (Done, w\<lparr>stdout := stdout w @
               [label @ '': '' @ formatCurrency ev (Num (totalOf fs))] @
               (if \<not> truthy c \<and> fs \<noteq> []
                then ([CHR 0x0A] @ ''Breakdown by category:'') #
                     map (breakdownLine ev) (breakdown ev fs)
                else [])\<rparr>))) \<and>
   (\<not> truthy (getArgValue args ''--month'') \<or> \<not> truthy (getArgValue args ''--amount'') \<longrightarrow>
      setBudget ev args w =
        (Thrown (MissingArgument ''Both --month and --amount are required''), w))"
proof (intro conjI impI)
  assume a: "getArgValue args ''--month'' = Some m \<and> m \<noteq> []"
  then have s: "(parseMonth m = Inl InvalidMonth \<longrightarrow> showSummary ev args w = (Thrown InvalidMonth, w)) \<and>
         (parseMonth m \<noteq> Inl InvalidMonth \<longrightarrow> fst (showSummary ev args w) = Done)"
    using showSummary_month by blast
  show "fst (showSummary ev args w) = Thrown InvalidMonth \<longleftrightarrow>
         \<not> (\<exists>k::nat. 1 \<le> k \<and> k \<le> 12 \<and> parseInt m = Fin (of_nat k))"
    using s parseMonth_invalid [of m] by (cases "parseMonth m = Inl InvalidMonth") auto
  show "snd (showSummary ev args w) = w" if "fst (showSummary ev args w) = Thrown InvalidMonth"
    using s that by (cases "parseMonth m = Inl InvalidMonth") auto
next
  assume a: "getArgValue args ''--month'' = Some m \<and> m \<noteq> [] \<and> truthy (getArgValue args ''--amount'')"
  then have s: "(parseMonth m = Inl InvalidMonth \<longrightarrow> setBudget ev args w = (Thrown InvalidMonth, w)) \<and>
         (parseMonth m \<noteq> Inl InvalidMonth \<longrightarrow> fst (setBudget ev args w) \<noteq> Thrown InvalidMonth)"
    using setBudget_month by blast
  show "fst (setBudget ev args w) = Thrown InvalidMonth \<longleftrightarrow>
         \<not> (\<exists>k::nat. 1 \<le> k \<and> k \<le> 12 \<and> parseInt m = Fin (of_nat k))"
    using s parseMonth_invalid [of m] by (cases "parseMonth m = Inl InvalidMonth") auto
  show "snd (setBudget ev args w) = w" if "fst (setBudget ev args w) = Thrown InvalidMonth"
    using s that by (cases "parseMonth m = Inl InvalidMonth") auto
next
  assume "\<not> truthy (getArgValue args ''--month'')"
  then show "let c = getArgValue args ''--category'';
           fs = (if truthy c
                 then filter (\<lambda>e. toLowerCase (category e) = toLowerCase (argText c))
                        (expensesFile w)
                 else expensesFile w);
           label = (if truthy c then ''Total expenses ('' @ argText c @ '')''
                    else ''Total expenses'')
       in showSummary ev args w =
            (Done, w\<lparr>stdout := stdout w @
               [label @ '': '' @ formatCurrency ev (Num (totalOf fs))] @
               (if \<not> truthy c \<and> fs \<noteq> []
                then ([CHR 0x0A] @ ''Breakdown by category:'') #
                     map (breakdownLine ev) (breakdown ev fs)
                else [])\<rparr>)"
    by (rule showSummary_no_month_output)
next
  assume "\<not> truthy (getArgValue args ''--month'') \<or> \<not> truthy (getArgValue args ''--amount'')"
  then show "setBudget ev args w =
        (Thrown (MissingArgument ''Both --month and --amount are required''), w)"
    by (auto simp: setBudget_def Let_def)
qed

theorem month_argument_validated_witness:
  "getArgValue [''budget'', ''--month'', ''13'', ''--amount'', ''100''] ''--month'' = Some ''13'' \<and>
   ''13'' \<noteq> [] \<and>
   truthy (getArgValue [''budget'', ''--month'', ''13'', ''--amount'', ''100''] ''--amount'') \<and>
   parseInt ''13'' = Fin 13 \<and>
   fst (showSummary exampleEnv [''budget'', ''--month'', ''13'', ''--amount'', ''100''] exampleWorld) =
     Thrown InvalidMonth \<and>
   fst (setBudget exampleEnv [''budget'', ''--month'', ''13'', ''--amount'', ''100''] exampleWorld) =
     Thrown InvalidMonth"
proof -
  let ?args = "[''budget'', ''--month'', ''13'', ''--amount'', ''100'']"
  have a: "getArgValue ?args ''--month'' = Some ''13''"
    and b: "truthy (getArgValue ?args ''--amount'')"
    and p: "parseInt ''13'' = Fin 13"
    by (simp_all add: js_eval)
  have n: "\<not> (\<exists>k::nat. 1 \<le> k \<and> k \<le> 12 \<and> parseInt ''13'' = Fin (of_nat k))"
  proof
    assume "\<exists>k::nat. 1 \<le> k \<and> k \<le> 12 \<and> parseInt ''13'' = Fin (of_nat k)"
    then obtain k :: nat where k: "k \<le> 12" "(13::rat) = of_nat k" using p by auto
    from k(1) have "(of_nat k :: rat) \<le> of_nat 12" by (simp only: of_nat_le_iff)
    then show False using k(2) by simp
  qed
  show ?thesis
    using a b p n month_argument_validated [of ?args "''13''" exampleEnv exampleWorld]
    by simp
qed

text \<open>
  The claim as stated fails: the empty month argument is not valid, yet \<open>summary\<close>
  does not fail; and the month argument 13 is not valid, yet \<open>budget\<close> without an
  amount fails with MissingArgument, not with InvalidMonth.
\<close>

theorem month_argument_counterexample:
  "getArgValue [''summary'', ''--month'', []] ''--month'' = Some [] \<and>
   parseInt [] = NaN \<and>
   fst (showSummary exampleEnv [''summary'', ''--month'', []] exampleWorld) = Done \<and>
   getArgValue [''budget'', ''--month'', ''13''] ''--month'' = Some ''13'' \<and>
   parseInt ''13'' = Fin 13 \<and>
   fst (setBudget exampleEnv [''budget'', ''--month'', ''13''] exampleWorld) =
     Thrown (MissingArgument ''Both --month and --amount are required'')"
  by (simp add: showSummary_def setBudget_def js_eval)

section \<open>Export\<close>

lemma splitOn_not_Nil: "splitOn c s \<noteq> []"
  by (induction s) (auto split: list.splits)

lemma splitOn_no_sep: "c \<notin> set x \<Longrightarrow> splitOn c x = [x]"
  by (induction x) auto

lemma splitOn_append: "c \<notin> set x \<Longrightarrow> splitOn c (x @ c # rest) = x # splitOn c rest"
  by (induction x) auto

lemma splitOn_join:
  "xs \<noteq> [] \<Longrightarrow> \<forall>x\<in>set xs. c \<notin> set x \<Longrightarrow> splitOn c (join [c] xs) = xs"
proof (induction xs)
  case Nil
  then show ?case by simp
next
  case (Cons x xs)
  show ?case
  proof (cases xs)
    case Nil
    then show ?thesis using Cons.prems by (simp add: splitOn_no_sep)
  next
    case (Cons y ys)
    then have "splitOn c (join [c] xs) = xs" using Cons.IH Cons.prems by simp
    then show ?thesis using Cons Cons.prems by (simp add: splitOn_append)
  qed
qed

text \<open>
  C9.  On an empty store \<open>export\<close> prints \<open>No expenses to export\<close> and changes nothing
  else: no file is written.  On a non-empty store it writes one file, named by the
  \<open>--file\<close> argument or \<open>expenses.csv\<close>, whose content is the header
  \<open>ID,Date,Description,Amount,Category\<close>, a line feed, and the rows joined by line
  feeds; there is one row per record, in the order of the store, made of the identifier,
  the date, the description between two double quotes and otherwise as it is, the
  amount and the category, separated by commas.  When no row contains a line feed, the
  lines of the file are the header followed by exactly these rows.
\<close>

theorem export_writes_header_and_rows:
  "(expensesFile w = [] \<longrightarrow>
      exportToCsv ev args w = (Done, w\<lparr>stdout := stdout w @ [''No expenses to export'']\<rparr>)) \<and>
   (expensesFile w \<noteq> [] \<longrightarrow>
      (let name = orElse (getArgValue args ''--file'') ''expenses.csv'';
           rows = map (\<lambda>e. showInt (ident e) @ '','' @ date e @ '','' @
                            [CHR 0x22] @ description e @ [CHR 0x22] @ '','' @
                            showJson ev (amount e) @ '','' @ category e)
                    (expensesFile w);
           content = ''ID,Date,Description,Amount,Category'' @ [CHR 0x0A] @ join [CHR 0x0A] rows
       in exportToCsv ev args w =
            (Done, w\<lparr>writtenFiles := (name, content) # writtenFiles w,
                     stdout := stdout w @ [''Expenses exported to '' @ name]\<rparr>) \<and>
          length rows = length (expensesFile w) \<and>
          ((\<forall>r\<in>set rows. CHR 0x0A \<notin> set r) \<longrightarrow>
             splitOn (CHR 0x0A) content = ''ID,Date,Description,Amount,Category'' # rows)))"
proof (intro conjI impI)
  assume "expensesFile w = []"
  then show "exportToCsv ev args w = (Done, w\<lparr>stdout := stdout w @ [''No expenses to export'']\<rparr>)"
    by (simp add: exportToCsv_def loadExpenses_def consoleLog_def Let_def)
next
  assume ne: "expensesFile w \<noteq> []"
  define rows where "rows = map (\<lambda>e. showInt (ident e) @ '','' @ date e @ '','' @
                            [CHR 0x22] @ description e @ [CHR 0x22] @ '','' @
                            showJson ev (amount e) @ '','' @ category e)
                    (expensesFile w)"
  define name where "name = orElse (getArgValue args ''--file'') ''expenses.csv''"
  define content where
    "content = ''ID,Date,Description,Amount,Category'' @ [CHR 0x0A] @ join [CHR 0x0A] rows"
  have rows_eq: "map (csvRow ev) (expensesFile w) = rows"
    by (simp add: rows_def csvRow_def)
  have r: "exportToCsv ev args w =
            (Done, w\<lparr>writtenFiles := (name, content) # writtenFiles w,
                     stdout := stdout w @ [''Expenses exported to '' @ name]\<rparr>)"
    using ne
    by (simp add: exportToCsv_def loadExpenses_def consoleLog_def writeFile_def csvHeader_def
        Let_def rows_eq name_def content_def)
  have l: "length rows = length (expensesFile w)"
    by (simp add: rows_def)
  have rne: "rows \<noteq> []" using ne by (simp add: rows_def)
  have s: "splitOn (CHR 0x0A) content = ''ID,Date,Description,Amount,Category'' # rows"
    if "\<forall>r\<in>set rows. CHR 0x0A \<notin> set r"
  proof -
    have "splitOn (CHR 0x0A) (''ID,Date,Description,Amount,Category'' @ CHR 0x0A # join [CHR 0x0A] rows) =
        ''ID,Date,Description,Amount,Category'' # splitOn (CHR 0x0A) (join [CHR 0x0A] rows)"
      by (rule splitOn_append) simp
    then show ?thesis using splitOn_join [OF rne that] by (simp add: content_def)
  qed
  show "let name = orElse (getArgValue args ''--file'') ''expenses.csv'';
           rows = map (\<lambda>e. showInt (ident e) @ '','' @ date e @ '','' @
                            [CHR 0x22] @ description e @ [CHR 0x22] @ '','' @
                            showJson ev (amount e) @ '','' @ category e)
                    (expensesFile w);
           content = ''ID,Date,Description,Amount,Category'' @ [CHR 0x0A] @ join [CHR 0x0A] rows
       in exportToCsv ev args w =
            (Done, w\<lparr>writtenFiles := (name, content) # writtenFiles w,
                     stdout := stdout w @ [''Expenses exported to '' @ name]\<rparr>) \<and>
          length rows = length (expensesFile w) \<and>
          ((\<forall>r\<in>set rows. CHR 0x0A \<notin> set r) \<longrightarrow>
             splitOn (CHR 0x0A) content = ''ID,Date,Description,Amount,Category'' # rows)"
    using r l s unfolding Let_def rows_def [symmetric] name_def [symmetric] content_def [symmetric]
    by blast
qed

lemma csvRow_example:
  "csvRow exampleEnv lunch = ''1,2024-08-01,'' @ [CHR 0x22] @ ''Lunch'' @ [CHR 0x22] @ '',20,Food''"
  "csvRow exampleEnv taxi = ''2,2024-08-15,'' @ [CHR 0x22] @ ''Taxi'' @ [CHR 0x22] @ '',30,Travel''"
  by (simp_all add: csvRow_def showJson_def showInt_def showNat.simps digitChar_def decimalText_def
      example_defs Let_def)

theorem export_writes_header_and_rows_witness:
  "expensesFile exampleWorld \<noteq> [] \<and>
   expensesFile emptyWorld = [] \<and>
   exportToCsv exampleEnv [''export''] emptyWorld =
     (Done, emptyWorld\<lparr>stdout := [''No expenses to export'']\<rparr>) \<and>
   (\<exists>content.
      writtenFiles (snd (exportToCsv exampleEnv [''export''] exampleWorld)) =
        [(''expenses.csv'', content)] \<and>
      splitOn (CHR 0x0A) content =
        [''ID,Date,Description,Amount,Category'',
         ''1,2024-08-01,'' @ [CHR 0x22] @ ''Lunch'' @ [CHR 0x22] @ '',20,Food'',
         ''2,2024-08-15,'' @ [CHR 0x22] @ ''Taxi'' @ [CHR 0x22] @ '',30,Travel''])"
proof -
  have ne: "expensesFile exampleWorld \<noteq> []" and e: "expensesFile emptyWorld = []"
    by (simp_all add: example_defs)
  have n: "orElse (getArgValue [''export''] ''--file'') ''expenses.csv'' = ''expenses.csv''"
    by (simp add: js_eval)
  have rows: "map (\<lambda>e. showInt (ident e) @ '','' @ date e @ '','' @
                            [CHR 0x22] @ description e @ [CHR 0x22] @ '','' @
                            showJson exampleEnv (amount e) @ '','' @ category e)
                    (expensesFile exampleWorld) =
     [''1,2024-08-01,'' @ [CHR 0x22] @ ''Lunch'' @ [CHR 0x22] @ '',20,Food'',
      ''2,2024-08-15,'' @ [CHR 0x22] @ ''Taxi'' @ [CHR 0x22] @ '',30,Travel'']"
    by (simp add: showJson_def showInt_def showNat.simps digitChar_def decimalText_def
      example_defs Let_def)
  have w0: "writtenFiles exampleWorld = []" "stdout emptyWorld = []"
    by (simp_all add: example_defs)
  from export_writes_header_and_rows [of emptyWorld exampleEnv "[''export'']"] e w0
  have a: "exportToCsv exampleEnv [''export''] emptyWorld =
     (Done, emptyWorld\<lparr>stdout := [''No expenses to export'']\<rparr>)"
    by simp
  from export_writes_header_and_rows [of exampleWorld exampleEnv "[''export'']"] ne
  have b: "\<exists>content.
      writtenFiles (snd (exportToCsv exampleEnv [''export''] exampleWorld)) =
        [(''expenses.csv'', content)] \<and>
      splitOn (CHR 0x0A) content =
        [''ID,Date,Description,Amount,Category'',
         ''1,2024-08-01,'' @ [CHR 0x22] @ ''Lunch'' @ [CHR 0x22] @ '',20,Food'',
         ''2,2024-08-15,'' @ [CHR 0x22] @ ''Taxi'' @ [CHR 0x22] @ '',30,Travel'']"
    unfolding Let_def rows n by (simp add: w0)
  show ?thesis using ne e a b by blast
qed

section \<open>A flag without a value\<close>

lemma indexOf_absent: "x \<notin> set xs \<Longrightarrow> indexOf xs x = - 1"
  by (induction xs) (auto simp: Let_def)

lemma indexOf_present: "x \<in> set xs \<Longrightarrow> 0 \<le> indexOf xs x \<and> indexOf xs x < int (length xs)"
  by (induction xs) (auto simp: Let_def)

lemma getArgValue_Nil: "getArgValue [] f = None"
  by (simp add: getArgValue_def)

lemma getArgValue_Cons:
  "getArgValue (a # as) f =
     (if a = f then (case as of [] \<Rightarrow> None | v # _ \<Rightarrow> Some v) else getArgValue as f)"
proof (cases "a = f")
  case True
  then show ?thesis by (cases as) (simp_all add: getArgValue_def)
next
  case False
  show ?thesis
  proof (cases "f \<in> set as")
    case True
    then have i: "0 \<le> indexOf as f" "indexOf as f < int (length as)"
      using indexOf_present [OF True] by simp_all
    then have "nat (indexOf as f + 1 + 1) = Suc (nat (indexOf as f + 1))" by simp
    then show ?thesis using False i by (auto simp: getArgValue_def Let_def)
  next
    case False
    then show ?thesis using \<open>a \<noteq> f\<close> by (simp add: getArgValue_def indexOf_absent)
  qed
qed

lemma getArgValue_absent: "f \<notin> set xs \<Longrightarrow> getArgValue xs f = None"
  by (simp add: getArgValue_def indexOf_absent)

lemma getArgValue_dangling: "f \<notin> set xs \<Longrightarrow> getArgValue (xs @ [f]) f = None"
  by (induction xs) (auto simp: getArgValue_Cons getArgValue_Nil)

lemma getArgValue_snoc_other:
  "f \<noteq> t \<Longrightarrow> xs = [] \<or> last xs \<noteq> f \<Longrightarrow> getArgValue (xs @ [t]) f = getArgValue xs f"
proof (induction xs)
  case Nil
  then show ?case by (simp add: getArgValue_Cons getArgValue_Nil)
next
  case (Cons a xs)
  then show ?case by (cases xs) (auto simp: getArgValue_Cons getArgValue_Nil)
qed

lemma getArgValue_snoc_flag:
  assumes "flag \<notin> set xs" and "xs = [] \<or> last xs \<notin> set flagNames" and "f \<in> set flagNames"
  shows "getArgValue (xs @ [flag]) f = getArgValue xs f"
proof (cases "f = flag")
  case True
  then show ?thesis using assms(1) by (simp add: getArgValue_dangling getArgValue_absent)
next
  case False
  moreover have "xs = [] \<or> last xs \<noteq> f" using assms(2,3) by auto
  ultimately show ?thesis by (rule getArgValue_snoc_other)
qed

lemma handlers_cong:
  assumes "\<forall>f\<in>set flagNames. getArgValue a f = getArgValue b f"
  shows "addExpense ev a w = addExpense ev b w"
    and "updateExpense ev a w = updateExpense ev b w"
    and "deleteExpense ev a w = deleteExpense ev b w"
    and "listExpenses ev a w = listExpenses ev b w"
    and "showSummary ev a w = showSummary ev b w"
    and "setBudget ev a w = setBudget ev b w"
    and "exportToCsv ev a w = exportToCsv ev b w"
proof -
  from assms have e: "getArgValue a ''--description'' = getArgValue b ''--description''"
    "getArgValue a ''--amount'' = getArgValue b ''--amount''"
    "getArgValue a ''--category'' = getArgValue b ''--category''"
    "getArgValue a ''--id'' = getArgValue b ''--id''"
    "getArgValue a ''--month'' = getArgValue b ''--month''"
    "getArgValue a ''--file'' = getArgValue b ''--file''"
    by (simp_all add: flagNames_def)
  show "addExpense ev a w = addExpense ev b w" by (simp add: addExpense_def e)
  show "updateExpense ev a w = updateExpense ev b w" by (simp add: updateExpense_def e)
  show "deleteExpense ev a w = deleteExpense ev b w" by (simp add: deleteExpense_def e)
  show "listExpenses ev a w = listExpenses ev b w" by (simp add: listExpenses_def e)
  show "showSummary ev a w = showSummary ev b w" by (simp add: showSummary_def e)
  show "setBudget ev a w = setBudget ev b w" by (simp add: setBudget_def e)
  show "exportToCsv ev a w = exportToCsv ev b w" by (simp add: exportToCsv_def e)
qed

text \<open>
  C10 (as amended).  Let a flag occur in the argument list only as its final token.
  Then \<open>getArgValue\<close> yields \<open>null\<close> for it, as it does on the list without that
  token.  When, moreover, the token before it is not itself one of the flags that the
  handlers read (so that the final token is not taken as the value of that flag), every
  handler behaves on the list exactly as on the list without the final token.  In
  particular a dangling required flag fails with MissingArgument (\<open>--description\<close> in
  add; \<open>--amount\<close> in add once a description is there; \<open>--id\<close> in update and delete;
  \<open>--month\<close> or \<open>--amount\<close> in budget), and a dangling \<open>--category\<close> in list or
  \<open>--file\<close> in export is ignored.
\<close>

theorem dangling_flag_is_absent:
  assumes "flag \<notin> set xs"
  shows "getArgValue (xs @ [flag]) flag = None \<and> getArgValue xs flag = None \<and>
    (xs = [] \<or> last xs \<notin> set flagNames \<longrightarrow>
       addExpense ev (xs @ [flag]) w = addExpense ev xs w \<and>
       updateExpense ev (xs @ [flag]) w = updateExpense ev xs w \<and>
       deleteExpense ev (xs @ [flag]) w = deleteExpense ev xs w \<and>
       listExpenses ev (xs @ [flag]) w = listExpenses ev xs w \<and>
       showSummary ev (xs @ [flag]) w = showSummary ev xs w \<and>
       setBudget ev (xs @ [flag]) w = setBudget ev xs w \<and>
       exportToCsv ev (xs @ [flag]) w = exportToCsv ev xs w) \<and>
    (flag = ''--description'' \<longrightarrow>
       addExpense ev (xs @ [flag]) w =
         (Thrown (MissingArgument ''Description is required (--description)''), w)) \<and>
    (flag = ''--amount'' \<and> truthy (getArgValue (xs @ [flag]) ''--description'') \<longrightarrow>
       addExpense ev (xs @ [flag]) w =
         (Thrown (MissingArgument ''Amount is required (--amount)''), w)) \<and>
    (flag = ''--id'' \<longrightarrow>
       updateExpense ev (xs @ [flag]) w =
         (Thrown (MissingArgument ''Expense ID is required (--id)''), w) \<and>
       deleteExpense ev (xs @ [flag]) w =
         (Thrown (MissingArgument ''Expense ID is required (--id)''), w)) \<and>
    (flag = ''--month'' \<or> flag = ''--amount'' \<longrightarrow>
       setBudget ev (xs @ [flag]) w =
         (Thrown (MissingArgument ''Both --month and --amount are required''), w)) \<and>
    (flag = ''--category'' \<longrightarrow> listExpenses ev (xs @ [flag]) w = listExpenses ev xs w) \<and>
    (flag = ''--file'' \<longrightarrow> exportToCsv ev (xs @ [flag]) w = exportToCsv ev xs w)"
proof -
  have d: "getArgValue (xs @ [flag]) flag = None"
    using assms by (rule getArgValue_dangling)
  have a: "getArgValue xs flag = None"
    using assms by (rule getArgValue_absent)
  have same: "\<forall>f\<in>set flagNames. getArgValue (xs @ [flag]) f = getArgValue xs f"
    if "xs = [] \<or> last xs \<notin> set flagNames"
    using getArgValue_snoc_flag [OF assms that] by blast
  have c1: "xs = [] \<or> last xs \<notin> set flagNames \<longrightarrow>
       addExpense ev (xs @ [flag]) w = addExpense ev xs w \<and>
       updateExpense ev (xs @ [flag]) w = updateExpense ev xs w \<and>
       deleteExpense ev (xs @ [flag]) w = deleteExpense ev xs w \<and>
       listExpenses ev (xs @ [flag]) w = listExpenses ev xs w \<and>
       showSummary ev (xs @ [flag]) w = showSummary ev xs w \<and>
       setBudget ev (xs @ [flag]) w = setBudget ev xs w \<and>
       exportToCsv ev (xs @ [flag]) w = exportToCsv ev xs w"
    using handlers_cong [OF same] by blast
  have c2: "flag = ''--description'' \<longrightarrow>
       addExpense ev (xs @ [flag]) w =
         (Thrown (MissingArgument ''Description is required (--description)''), w)"
    using d by (auto simp: addExpense_def truthy_def Let_def)
  have c3: "flag = ''--amount'' \<and> truthy (getArgValue (xs @ [flag]) ''--description'') \<longrightarrow>
       addExpense ev (xs @ [flag]) w =
         (Thrown (MissingArgument ''Amount is required (--amount)''), w)"
    using d by (auto simp: addExpense_def truthy_def Let_def)
  have c4: "flag = ''--id'' \<longrightarrow>
       updateExpense ev (xs @ [flag]) w =
         (Thrown (MissingArgument ''Expense ID is required (--id)''), w) \<and>
       deleteExpense ev (xs @ [flag]) w =
         (Thrown (MissingArgument ''Expense ID is required (--id)''), w)"
    using d by (auto simp: updateExpense_def deleteExpense_def truthy_def Let_def)
  have c5: "flag = ''--month'' \<or> flag = ''--amount'' \<longrightarrow>
       setBudget ev (xs @ [flag]) w =
         (Thrown (MissingArgument ''Both --month and --amount are required''), w)"
    using d by (auto simp: setBudget_def truthy_def Let_def)
  have c6: "flag = ''--category'' \<longrightarrow> listExpenses ev (xs @ [flag]) w = listExpenses ev xs w"
    using d a by (auto simp: listExpenses_def Let_def)
  have c7: "flag = ''--file'' \<longrightarrow> exportToCsv ev (xs @ [flag]) w = exportToCsv ev xs w"
    using d a by (auto simp: exportToCsv_def Let_def)
  show ?thesis using d a c1 c2 c3 c4 c5 c6 c7 by blast
qed

theorem dangling_flag_is_absent_witness:
  "''--amount'' \<notin> set [''add'', ''--description'', ''Lunch''] \<and>
   last [''add'', ''--description'', ''Lunch''] \<notin> set flagNames \<and>
   truthy (getArgValue [''add'', ''--description'', ''Lunch'', ''--amount''] ''--description'') \<and>
   getArgValue [''add'', ''--description'', ''Lunch'', ''--amount''] ''--amount'' = None \<and>
   addExpense exampleEnv [''add'', ''--description'', ''Lunch'', ''--amount''] exampleWorld =
     addExpense exampleEnv [''add'', ''--description'', ''Lunch''] exampleWorld \<and>
   addExpense exampleEnv [''add'', ''--description'', ''Lunch'', ''--amount''] exampleWorld =
     (Thrown (MissingArgument ''Amount is required (--amount)''), exampleWorld)"
proof -
  have a: "''--amount'' \<notin> set [''add'', ''--description'', ''Lunch'']"
    by simp
  have l: "last [''add'', ''--description'', ''Lunch''] \<notin> set flagNames"
    by (simp add: flagNames_def)
  have t: "truthy (getArgValue ([''add'', ''--description'', ''Lunch''] @ [''--amount''])
      ''--description'')"
    by (simp add: js_eval)
  note th = dangling_flag_is_absent [OF a, of exampleEnv exampleWorld]
  have g: "getArgValue ([''add'', ''--description'', ''Lunch''] @ [''--amount'']) ''--amount'' = None"
    using th by blast
  have e: "addExpense exampleEnv ([''add'', ''--description'', ''Lunch''] @ [''--amount''])
      exampleWorld = addExpense exampleEnv [''add'', ''--description'', ''Lunch''] exampleWorld"
    using th l by blast
  have m: "addExpense exampleEnv ([''add'', ''--description'', ''Lunch''] @ [''--amount''])
      exampleWorld = (Thrown (MissingArgument ''Amount is required (--amount)''), exampleWorld)"
    using th t by blast
  have "''--amount'' \<notin> set [''add'', ''--description'', ''Lunch''] \<and>
   last [''add'', ''--description'', ''Lunch''] \<notin> set flagNames \<and>
   truthy (getArgValue ([''add'', ''--description'', ''Lunch''] @ [''--amount'']) ''--description'') \<and>
   getArgValue ([''add'', ''--description'', ''Lunch''] @ [''--amount'']) ''--amount'' = None \<and>
   addExpense exampleEnv ([''add'', ''--description'', ''Lunch''] @ [''--amount'']) exampleWorld =
     addExpense exampleEnv [''add'', ''--description'', ''Lunch''] exampleWorld \<and>
   addExpense exampleEnv ([''add'', ''--description'', ''Lunch''] @ [''--amount'']) exampleWorld =
     (Thrown (MissingArgument ''Amount is required (--amount)''), exampleWorld)"
    using a l t g e m by blast
  then show ?thesis unfolding append.simps .
qed

text \<open>
  The claim as stated fails.  A flag that is the final token and also occurs earlier
  with a value is not absent: extraction yields the earlier value and add succeeds.
  And a final \<open>--category\<close> after \<open>--month\<close> is not ignored: it is taken as the month,
  so that summary fails, while without it summary succeeds.
\<close>

theorem dangling_flag_counterexample:
  "last [''add'', ''--description'', ''Lunch'', ''--amount'', ''5'', ''--amount''] = ''--amount'' \<and>
   getArgValue [''add'', ''--description'', ''Lunch'', ''--amount'', ''5'', ''--amount''] ''--amount'' =
     Some ''5'' \<and>
   fst (addExpense exampleEnv
         [''add'', ''--description'', ''Lunch'', ''--amount'', ''5'', ''--amount''] exampleWorld) =
     Done \<and>
   fst (showSummary exampleEnv [''summary'', ''--month'', ''--category''] exampleWorld) =
     Thrown InvalidMonth \<and>
   fst (showSummary exampleEnv [''summary'', ''--month''] exampleWorld) = Done"
  by (simp add: addExpense_def showSummary_def parseMonth_def js_eval)

section \<open>Summary\<close>

lemma totalOf_foldl: "foldl (\<lambda>sum e. sum + numOf (amount e)) a es = a + totalOf es"
proof (induction es arbitrary: a)
  case Nil
  then show ?case by (simp add: totalOf_def)
next
  case (Cons e es)
  have "foldl (\<lambda>sum e. sum + numOf (amount e)) a (e # es) =
      (a + numOf (amount e)) + totalOf es"
    using Cons [of "a + numOf (amount e)"] by simp
  moreover have "totalOf (e # es) = numOf (amount e) + totalOf es"
    using Cons [of "0 + numOf (amount e)"] by (simp add: totalOf_def)
  ultimately show ?case by simp
qed

lemma totalOf_Nil: "totalOf [] = 0"
  by (simp add: totalOf_def)

lemma totalOf_snoc: "totalOf (es @ [e]) = totalOf es + numOf (amount e)"
  by (simp add: totalOf_def)

lemma totalOf_sum_list: "totalOf es = sum_list (map (\<lambda>e. numOf (amount e)) es)"
  by (induction es rule: rev_induct) (simp_all add: totalOf_Nil totalOf_snoc)

lemma categoryTotals_snoc:
  "categoryTotals ev (es @ [e]) =
   writeTotal (categoryTotals ev es) (category e)
     (jsPlus ev (readTotal (categoryTotals ev es) (category e)) (amount e))"
  by (simp add: categoryTotals_def)

lemma protoText_proto: "protoText c = None \<Longrightarrow> c \<noteq> ''__proto__''"
  by (auto simp: protoText_def)

lemma sum_replace:
  fixes g :: "string \<times> jsval \<Rightarrow> rat"
  assumes "distinct (map fst tot)" and "(c, u) \<in> set tot"
  shows "sum_list (map g (map (\<lambda>(k, u'). if k = c then (k, v) else (k, u')) tot)) =
         sum_list (map g tot) - g (c, u) + g (c, v)"
  using assms
proof (induction tot)
  case Nil
  then show ?case by simp
next
  case (Cons p tot)
  obtain k w where p: "p = (k, w)" by (cases p)
  show ?case
  proof (cases "k = c")
    case True
    then have notin: "c \<notin> fst ` set tot" using Cons.prems(1) p by simp
    then have same: "map (\<lambda>(k, u'). if k = c then (k, v) else (k, u')) tot = tot"
      by (induction tot) auto
    have "w = u" using Cons.prems(2) notin p True by force
    then show ?thesis using p True same by simp
  next
    case False
    then have "(c, u) \<in> set tot" using Cons.prems(2) p by auto
    then show ?thesis using Cons.IH Cons.prems(1) p False by simp
  qed
qed

lemma keys_replace:
  "map fst (map (\<lambda>(k, u'). if k = c then (k, v) else (k, u')) tot) = map fst tot"
  by (induction tot) auto

lemma values_replace:
  "isNumber v \<Longrightarrow> list_all (\<lambda>p. isNumber (snd p)) tot \<Longrightarrow>
   list_all (\<lambda>p. isNumber (snd p)) (map (\<lambda>(k, u'). if k = c then (k, v) else (k, u')) tot)"
  by (induction tot) auto

text \<open>The invariant of the loop that fills \<open>categoryTotals\<close>.\<close>

lemma categoryTotals_invariant:
  assumes "\<forall>e\<in>set es. protoText (category e) = None"
  shows "list_all (\<lambda>p. isNumber (snd p)) (categoryTotals ev es) \<and>
         distinct (map fst (categoryTotals ev es)) \<and>
         set (map fst (categoryTotals ev es)) = category ` set es \<and>
         sum_list (map (\<lambda>p. numberOf (snd p)) (categoryTotals ev es)) = totalOf es"
  using assms
proof (induction es rule: rev_induct)
  case Nil
  then show ?case by (simp add: categoryTotals_def totalOf_Nil)
next
  case (snoc e es)
  let ?tot = "categoryTotals ev es"
  let ?c = "category e"
  from snoc have ih: "list_all (\<lambda>p. isNumber (snd p)) ?tot" "distinct (map fst ?tot)"
    "set (map fst ?tot) = category ` set es"
    "sum_list (map (\<lambda>p. numberOf (snd p)) ?tot) = totalOf es"
    by simp_all
  from snoc.prems have np: "protoText ?c = None" by simp
  then have nq: "?c \<noteq> ''__proto__''" by (rule protoText_proto)
  show ?case
  proof (cases "?c \<in> fst ` set ?tot")
    case True
    then obtain u where u: "(?c, u) \<in> set ?tot" by auto
    then have "isNumber u" using ih(1) by (auto simp: list_all_iff)
    then obtain r where r: "u = VNum r" by (cases u) (simp_all add: isNumber_def)
    have m: "map_of ?tot ?c = Some (VNum r)" using u r ih(2) by simp
    let ?v = "VNum (r + numOf (amount e))"
    have step: "categoryTotals ev (es @ [e]) =
        map (\<lambda>(k, u'). if k = ?c then (k, ?v) else (k, u')) ?tot"
      using True m nq by (simp add: categoryTotals_snoc readTotal_def jsPlus_def writeTotal_def)
    have s: "sum_list (map (\<lambda>p. numberOf (snd p)) (categoryTotals ev (es @ [e]))) =
        totalOf es - numberOf (VNum r) + numberOf ?v"
      using sum_replace [OF ih(2), of ?c u "\<lambda>p. numberOf (snd p)" ?v] u r ih(4)
      by (simp add: step)
    have "list_all (\<lambda>p. isNumber (snd p)) (categoryTotals ev (es @ [e]))"
      unfolding step by (rule values_replace) (simp add: isNumber_def, rule ih(1))
    moreover have "map fst (categoryTotals ev (es @ [e])) = map fst ?tot"
      unfolding step by (rule keys_replace)
    moreover have "?c \<in> category ` set es" using True ih(3) by simp
    ultimately show ?thesis using s ih(2,3)
      by (auto simp: totalOf_snoc numberOf_def)
  next
    case False
    then have m: "map_of ?tot ?c = None" by (simp add: map_of_eq_None_iff)
    have step: "categoryTotals ev (es @ [e]) = ?tot @ [(?c, VNum (0 + numOf (amount e)))]"
      using False m nq np
      by (simp add: categoryTotals_snoc readTotal_def jsPlus_def writeTotal_def)
    show ?thesis using False ih
      by (simp add: step totalOf_snoc isNumber_def numberOf_def)
  qed
qed

lemma mset_objectEntries: "mset (objectEntries tot) = mset tot"
  by (simp add: objectEntries_def)

lemma mset_insortDesc: "mset (insortDesc x xs) = add_mset x (mset xs)"
  by (induction xs) auto

lemma mset_sortDesc: "mset (sortDesc xs) = mset xs"
  by (induction xs) (simp_all add: sortDesc_def mset_insortDesc)

lemma mset_breakdown: "mset (breakdown ev es) = mset (categoryTotals ev es)"
  by (simp add: breakdown_def mset_sortDesc mset_objectEntries)

lemma set_insortDesc: "set (insortDesc x xs) = insert x (set xs)"
  by (metis mset_insortDesc set_mset_add_mset_insert set_mset_mset)

lemma sorted_insortDesc:
  assumes "isNumber (snd x)" and "list_all (\<lambda>p. isNumber (snd p)) xs"
    and "sorted_wrt (\<lambda>a b. numberOf (snd b) \<le> numberOf (snd a)) xs"
  shows "sorted_wrt (\<lambda>a b. numberOf (snd b) \<le> numberOf (snd a)) (insortDesc x xs)"
  using assms
proof (induction xs)
  case Nil
  then show ?case by simp
next
  case (Cons y ys)
  from Cons.prems obtain a b where ab: "snd x = VNum a" "snd y = VNum b"
    by (cases "snd x"; cases "snd y") (simp_all add: isNumber_def)
  show ?case
  proof (cases "goesAfter (snd x) (snd y)")
    case True
    then have "a < b" using ab by (simp add: goesAfter_def)
    then show ?thesis using True Cons ab
      by (auto simp: set_insortDesc numberOf_def)
  next
    case False
    then have "b \<le> a" using ab by (simp add: goesAfter_def)
    then show ?thesis using False Cons.prems ab
      by (auto simp: numberOf_def)
  qed
qed

lemma sorted_sortDesc:
  "list_all (\<lambda>p. isNumber (snd p)) xs \<Longrightarrow>
   sorted_wrt (\<lambda>a b. numberOf (snd b) \<le> numberOf (snd a)) (sortDesc xs)"
proof (induction xs)
  case Nil
  then show ?case by (simp add: sortDesc_def)
next
  case (Cons x xs)
  have "list_all (\<lambda>p. isNumber (snd p)) (sortDesc xs)"
    using Cons.prems by (simp add: list_all_iff flip: set_mset_mset [of "sortDesc xs"] add: mset_sortDesc)
  then show ?case using Cons sorted_insortDesc [of x "sortDesc xs"]
    by (simp add: sortDesc_def)
qed

text \<open>When no category of the records is named like a property of \<open>Object.prototype\<close>,
  the breakdown has one numeric subtotal per category, the subtotals add up to the
  total, and they are in descending order.\<close>

lemma breakdown_sound:
  assumes "\<forall>e\<in>set es. protoText (category e) = None"
  shows "list_all (\<lambda>p. isNumber (snd p)) (breakdown ev es) \<and>
         distinct (map fst (breakdown ev es)) \<and>
         set (map fst (breakdown ev es)) = category ` set es \<and>
         sum_list (map (\<lambda>p. numberOf (snd p)) (breakdown ev es)) = totalOf es \<and>
         sorted_wrt (\<lambda>a b. numberOf (snd b) \<le> numberOf (snd a)) (breakdown ev es)"
proof -
  note inv = categoryTotals_invariant [OF assms, of ev]
  have m: "mset (breakdown ev es) = mset (categoryTotals ev es)"
    by (rule mset_breakdown)
  then have st: "set (breakdown ev es) = set (categoryTotals ev es)"
    by (rule mset_eq_setD)
  have a: "list_all (\<lambda>p. isNumber (snd p)) (breakdown ev es)"
    using inv st by (simp add: list_all_iff)
  have "mset (map fst (breakdown ev es)) = mset (map fst (categoryTotals ev es))"
    using m by (metis mset_map)
  then have b: "distinct (map fst (breakdown ev es))"
    using inv by (metis mset_eq_imp_distinct_iff)
  have c: "set (map fst (breakdown ev es)) = category ` set es"
    using inv st by simp
  have "sum_mset (image_mset (\<lambda>p. numberOf (snd p)) (mset (breakdown ev es))) =
        sum_mset (image_mset (\<lambda>p. numberOf (snd p)) (mset (categoryTotals ev es)))"
    using m by simp
  then have d: "sum_list (map (\<lambda>p. numberOf (snd p)) (breakdown ev es)) = totalOf es"
    using inv by (simp only: mset_map [symmetric] sum_mset_sum_list)
  have "list_all (\<lambda>p. isNumber (snd p)) (objectEntries (categoryTotals ev es))"
    using inv mset_eq_setD [OF mset_objectEntries [of "categoryTotals ev es"]]
    by (simp add: list_all_iff)
  then have e: "sorted_wrt (\<lambda>a b. numberOf (snd b) \<le> numberOf (snd a)) (breakdown ev es)"
    unfolding breakdown_def by (rule sorted_sortDesc)
  show ?thesis using a b c d e by blast
qed

text \<open>Where local time is not behind UTC, the month filter keeps exactly the records
  dated in that month of the current year.\<close>

lemma inMonth_not_behind_utc:
  "0 \<le> tzOffset ev \<Longrightarrow> inMonth ev m e = datedIn (currentYear ev) m e"
  by (auto simp: inMonth_def localYearMonth_def datedIn_def split: option.splits)

text \<open>Without a category filter, \<open>summary\<close> prints the total of the records that pass
  the month filter and, when there is such a record, the breakdown.\<close>

lemma showSummary_all_categories:
  assumes "\<not> truthy (getArgValue args ''--category'')"
    and "\<not> truthy (getArgValue args ''--month'') \<and> fs = expensesFile w \<and>
           label = ''Total expenses'' \<or>
         truthy (getArgValue args ''--month'') \<and>
           parseMonth (argText (getArgValue args ''--month'')) = Inr m \<and>
           fs = filter (inMonth ev m) (expensesFile w) \<and>
           label = ''Total expenses for '' @ monthNames ! (m - 1)"
  shows "showSummary ev args w =
     (Done, w\<lparr>stdout := stdout w @
        [label @ '': '' @ formatCurrency ev (Num (totalOf fs))] @
        (if fs = [] then []
         else ([CHR 0x0A] @ ''Breakdown by category:'') #
              map (breakdownLine ev) (breakdown ev fs))\<rparr>)"
  using assms
  by (auto simp: showSummary_def loadExpenses_def consoleLog_def Let_def)

lemma pen_totals:
  "categoryTotals exampleEnv [pen] =
   [(''constructor'', VStr ''function Object() { [native code] }5'')]"
  by (simp add: categoryTotals_def readTotal_def writeTotal_def jsPlus_def protoText_def
      showJson_def exampleEnv_def decimalText_def showNat.simps digitChar_def Let_def pen_def)

lemma pen_entries:
  "objectEntries [(''constructor'', VStr ''function Object() { [native code] }5'')] =
   [(''constructor'', VStr ''function Object() { [native code] }5'')]"
  by (simp add: objectEntries_def isArrayIndex_def isDigitIn_def digitVal_def)

lemma pen_breakdown:
  "breakdown exampleEnv [pen] =
   [(''constructor'', VStr ''function Object() { [native code] }5'')]"
  by (simp add: breakdown_def pen_totals pen_entries sortDesc_def)

lemma text_5: "decimalText 5 = ''5''"
  by (simp add: decimalText_def showNat.simps digitChar_def Let_def)

lemma text_900: "decimalText 900 = ''900''"
  by (simp add: decimalText_def showNat.simps digitChar_def Let_def)

lemma summary_pen:
  "stdout (snd (showSummary exampleEnv [''summary''] (emptyWorld\<lparr>expensesFile := [pen]\<rparr>))) =
     [''Total expenses: $5'',
      [CHR 0x0A] @ ''Breakdown by category:'',
      ''  constructor: $function Object() { [native code] }5'']"
  by (simp add: showSummary_def pen_breakdown totalOf_def breakdownLine_def showVal_def
      formatCurrency_def showJson_def js_eval emptyWorld_def loadExpenses_def consoleLog_def)
     (simp add: pen_def exampleEnv_def text_5)

lemma isoDate_examples:
  "isoDate ''2024-09-01'' = Some (2024, 9, 1)"
  "isoDate ''2024-08-01'' = Some (2024, 8, 1)"
  "isoDate ''2024-08-15'' = Some (2024, 8, 15)"
  by (simp_all add: isoDate_def isDigitIn_def digitVal_def digitsValue_def daysInMonth_def
      leapYear_def Let_def)

lemma west_months:
  "inMonth westEnv 8 rent" "\<not> inMonth westEnv 8 lunch" "inMonth westEnv 8 taxi"
  by (simp_all add: inMonth_def localYearMonth_def isoDate_examples westEnv_def exampleEnv_def
      rent_def lunch_def taxi_def)

lemma parseMonth_8: "parseMonth ''8'' = Inr 8"
  by (simp add: parseMonth_def js_eval)

lemma rent_breakdown: "breakdown westEnv [rent] = [(''Home'', VNum 900)]"
  by (simp add: breakdown_def categoryTotals_def readTotal_def writeTotal_def jsPlus_def
      protoText_def objectEntries_def isArrayIndex_def isDigitIn_def digitVal_def sortDesc_def
      rent_def numOf_def)

lemma summary_west:
  "stdout (snd (showSummary westEnv [''summary'', ''--month'', ''8'']
     (emptyWorld\<lparr>expensesFile := [lunch, rent]\<rparr>))) =
     [''Total expenses for August: $900'',
      [CHR 0x0A] @ ''Breakdown by category:'',
      ''  Home: $900'']"
  by (simp add: showSummary_def west_months parseMonth_8 rent_breakdown totalOf_def
      breakdownLine_def showVal_def formatCurrency_def showJson_def monthNames_def
      js_eval emptyWorld_def loadExpenses_def consoleLog_def)
     (simp add: rent_def westEnv_def exampleEnv_def text_900)

text \<open>
  C7.  The code at two inputs where it departs from the claim.  First, one record of
  amount 5 in the category \<open>constructor\<close> and no filter: the total printed is 5, while
  the only subtotal printed is the text
  \<open>function Object() { [native code] }5\<close>, not the number 5.  Second, local time five
  hours behind UTC, the year 2024, the month filter 8, and two records dated
  2024-08-01 (amount 20) and 2024-09-01 (amount 900): the total printed for August is
  900, the amount of the September record, and the August record does not contribute.
\<close>

theorem summary_breakdown_evaluation:
  "stdout (snd (showSummary exampleEnv [''summary''] (emptyWorld\<lparr>expensesFile := [pen]\<rparr>))) =
     [''Total expenses: $5'',
      [CHR 0x0A] @ ''Breakdown by category:'',
      ''  constructor: $function Object() { [native code] }5''] \<and>
   amount pen = Num 5 \<and> category pen = ''constructor'' \<and>
   stdout (snd (showSummary westEnv [''summary'', ''--month'', ''8'']
     (emptyWorld\<lparr>expensesFile := [lunch, rent]\<rparr>))) =
     [''Total expenses for August: $900'',
      [CHR 0x0A] @ ''Breakdown by category:'',
      ''  Home: $900''] \<and>
   date lunch = ''2024-08-01'' \<and> amount lunch = Num 20 \<and>
   date rent = ''2024-09-01'' \<and> amount rent = Num 900 \<and>
   currentYear westEnv = 2024 \<and> tzOffset westEnv = - 300"
  using summary_pen summary_west
  by (simp add: pen_def lunch_def rent_def westEnv_def exampleEnv_def)

end
